theory Spec2Isabelle
  imports Complex_Main "HOL-Library.Sublist"
begin

section \<open>JavaScript values as the page code handles them\<close>

text \<open>
  The upload page (\<^verbatim>\<open>src/pages/UploadPage.jsx\<close>) and the REST client
  (\<^verbatim>\<open>src/services/api.js\<close>) only ever read properties of parsed JSON bodies, test
  values for truthiness with \<^verbatim>\<open>||\<close> and \<^verbatim>\<open>&&\<close>, and interpolate them
  into template literals. \<open>jsval\<close> is the universe of those values. A number is kept
  at its exact rational value; \<open>JUndefined\<close> is what reading an absent property yields.
  An object is its list of properties, read with the first binding of a key.
\<close>

datatype jsval =
    JUndefined
  | JNull
  | JBool bool
  | JNum rat
  | JStr string
  | JObj "(string \<times> jsval) list"

text \<open>ECMAScript \<^verbatim>\<open>ToBoolean\<close>.\<close>

fun js_truthy :: "jsval \<Rightarrow> bool" where
  "js_truthy JUndefined = False"
| "js_truthy JNull = False"
| "js_truthy (JBool b) = b"
| "js_truthy (JNum r) = (r \<noteq> 0)"
| "js_truthy (JStr s) = (s \<noteq> [])"
| "js_truthy (JObj fs) = True"

text \<open>\<^verbatim>\<open>a || b\<close>: the left operand when it is truthy, else the right one.\<close>

definition js_or :: "jsval \<Rightarrow> jsval \<Rightarrow> jsval" where
  "js_or a b = (if js_truthy a then a else b)"

text \<open>
  What a \<^verbatim>\<open>try\<close> block can catch here: the \<^verbatim>\<open>TypeError\<close> of a property read on
  \<^verbatim>\<open>undefined\<close> or \<^verbatim>\<open>null\<close>, or a value thrown by the REST client.
\<close>

datatype thrown = TypeError | Thrown jsval

text \<open>
  \<^verbatim>\<open>v.k\<close> for the keys the page reads (none of them is a property of a primitive's
  prototype, so a primitive gives \<^verbatim>\<open>undefined\<close>).
\<close>

fun js_get :: "jsval \<Rightarrow> string \<Rightarrow> thrown + jsval" where
  "js_get JUndefined k = Inl TypeError"
| "js_get JNull k = Inl TypeError"
| "js_get (JObj fs) k = Inr (case map_of fs k of None \<Rightarrow> JUndefined | Some v \<Rightarrow> v)"
| "js_get (JBool b) k = Inr JUndefined"
| "js_get (JNum r) k = Inr JUndefined"
| "js_get (JStr s) k = Inr JUndefined"

text \<open>
  A template literal is kept as its parts, so that no number formatting has to be
  modelled: \<^verbatim>\<open>`model_${id}.${format}`\<close> is
  \<open>[Lit ''model_'', Val id, Lit ''.'', Val format]\<close>.
\<close>

datatype piece = Lit string | Val jsval

type_synonym template = "piece list"

section \<open>The REST client (api.js)\<close>

definition BASE_URL :: string where
  "BASE_URL = ''http://127.0.0.1:5000/api''"

record jsfile =
  ftype :: string
  fname :: string
  fbytes :: string

type_synonym blob = string

text \<open>
  The requests of \<open>projectAPI\<close> that the upload page issues: the multipart form of
  \<open>uploadImage\<close> (file, project_name, object_type, user_id), and the URLs of
  \<open>processProject\<close> and \<open>downloadProject\<close> (the latter with \<^verbatim>\<open>responseType: 'blob'\<close>).
\<close>

datatype request =
    PostForm template jsfile template string jsval
  | Post template
  | GetBlob template

text \<open>
  How an axios call settles: with \<open>response.data\<close>, or rejected, carrying the value of
  \<^verbatim>\<open>error.response?.data\<close> (\<open>JUndefined\<close> when there was no response at all).
\<close>

datatype 'a settled = Resolved 'a | Rejected jsval

text \<open>\<^verbatim>\<open>throw error.response?.data || { error: msg }\<close>\<close>

definition api_thrown :: "jsval \<Rightarrow> string \<Rightarrow> thrown" where
  "api_thrown d msg = Thrown (js_or d (JObj [(''error'', JStr msg)]))"

definition uploadImage_request :: "jsfile \<Rightarrow> template \<Rightarrow> string \<Rightarrow> request" where
  "uploadImage_request file projectName objectType =
     PostForm [Lit BASE_URL, Lit ''/upload''] file projectName objectType (JNum 1)"

definition uploadImage_result :: "jsval settled \<Rightarrow> thrown + jsval" where
  "uploadImage_result r =
     (case r of Resolved d \<Rightarrow> Inr d | Rejected e \<Rightarrow> Inl (api_thrown e ''Upload failed''))"

definition processProject_request :: "jsval \<Rightarrow> request" where
  "processProject_request projectId = Post [Lit BASE_URL, Lit ''/process/'', Val projectId]"

definition processProject_result :: "jsval settled \<Rightarrow> thrown + jsval" where
  "processProject_result r =
     (case r of Resolved d \<Rightarrow> Inr d | Rejected e \<Rightarrow> Inl (api_thrown e ''Processing failed''))"

definition downloadProject_request :: "jsval \<Rightarrow> request" where
  "downloadProject_request projectId =
     GetBlob [Lit BASE_URL, Lit ''/projects/'', Val projectId, Lit ''/download'']"

definition downloadProject_result :: "blob settled \<Rightarrow> thrown + blob" where
  "downloadProject_result r =
     (case r of Resolved b \<Rightarrow> Inr b | Rejected e \<Rightarrow> Inl (api_thrown e ''Download failed''))"

section \<open>The upload page (UploadPage.jsx)\<close>

subsection \<open>Component state\<close>

record stats =
  vertices :: jsval
  faces :: jsval
  processingTime :: template

record result3D_obj =
  res_projectId :: jsval
  plyFile :: template
  stlFile :: template
  previewImage :: "string option"
  res_stats :: stats

text \<open>
  The \<^verbatim>\<open>useState\<close> cells of the component. \<open>None\<close> is \<^verbatim>\<open>null\<close> for the cells
  that hold an object or a data URL.
\<close>

record ui_state =
  uploadedImage :: "string option"
  uploadedFile :: "jsfile option"
  projectId :: jsval
  isProcessing :: bool
  processingStep :: nat
  result3D :: "result3D_obj option"
  dragOver :: bool
  objectType :: string
  error :: jsval

definition initial_ui :: ui_state where
  "initial_ui =
     \<lparr>uploadedImage = None, uploadedFile = None, projectId = JNull, isProcessing = False,
      processingStep = 0, result3D = None, dragOver = False, objectType = ''auto'',
      error = JStr ''''\<rparr>"

definition processingSteps :: "string list" where
  "processingSteps =
     [''Analyzing image...'', ''Removing background...'', ''Generating depth map...'',
      ''Creating 3D model...'', ''Optimizing mesh...'', ''Adding colors...'', ''Finalizing...'']"

subsection \<open>Effects and suspended handlers\<close>

text \<open>
  What a handler asks of the outside world: an HTTP request, a one-shot timer, a
  \<^verbatim>\<open>FileReader.readAsDataURL\<close>, and the click on a temporary link that saves a blob
  under a suggested file name.
\<close>

datatype action =
    Http request
  | SetTimeout nat
  | ReadAsDataURL jsfile
  | SaveLink blob template

text \<open>
  An asynchronous handler suspended at an \<^verbatim>\<open>await\<close> (or a reader waiting for
  \<^verbatim>\<open>onload\<close>), with the variables its closure holds: \<open>startProcessing\<close> keeps the
  \<open>uploadedImage\<close> of the render it was created in, the loop counter and
  \<open>newProjectId\<close>; \<open>handleDownload\<close> keeps that render's \<open>result3D\<close> and the format.
\<close>

datatype task =
    ReadPending jsfile
  | UploadPending "string option"
  | TimerPending nat jsval "string option"
  | ProcessPending jsval "string option"
  | DownloadPending result3D_obj string
  | Done

type_synonym segment = "ui_state \<times> action list \<times> task"

subsection \<open>handleFileSelect and the reader's onload\<close>

text \<open>\<^verbatim>\<open>s.startsWith(p)\<close>\<close>

definition startsWith :: "string \<Rightarrow> string \<Rightarrow> bool" where
  "startsWith s p = prefix p s"

definition handleFileSelect :: "jsfile option \<Rightarrow> ui_state \<Rightarrow> segment" where
  "handleFileSelect file s =
     (case file of
        None \<Rightarrow> (s\<lparr>error := JStr ''Please select a valid image file''\<rparr>, [], Done)
      | Some f \<Rightarrow>
          if startsWith (ftype f) ''image/'' then (s, [ReadAsDataURL f], ReadPending f)
          else (s\<lparr>error := JStr ''Please select a valid image file''\<rparr>, [], Done))"

definition reader_onload :: "jsfile \<Rightarrow> string \<Rightarrow> ui_state \<Rightarrow> segment" where
  "reader_onload file dataUrl s =
     (s\<lparr>uploadedImage := Some dataUrl, uploadedFile := Some file, result3D := None,
        error := JStr '''', projectId := JNull\<rparr>, [], Done)"

definition handleDrop :: "jsfile option \<Rightarrow> ui_state \<Rightarrow> segment" where
  "handleDrop file s = handleFileSelect file (s\<lparr>dragOver := False\<rparr>)"

definition handleFileInputChange :: "jsfile option \<Rightarrow> ui_state \<Rightarrow> segment" where
  "handleFileInputChange file s = handleFileSelect file s"

subsection \<open>startProcessing\<close>

text \<open>
  The \<^verbatim>\<open>catch\<close> and \<^verbatim>\<open>finally\<close> blocks:
  \<^verbatim>\<open>setError(error.error || 'Processing failed. Please try again.')\<close>, then
  \<^verbatim>\<open>setIsProcessing(false)\<close>. Reading \<^verbatim>\<open>.error\<close> of a thrown \<^verbatim>\<open>null\<close> would itself
  throw out of the \<^verbatim>\<open>catch\<close>, leaving only the \<^verbatim>\<open>finally\<close>.
\<close>

definition catch_finally :: "thrown \<Rightarrow> ui_state \<Rightarrow> segment" where
  "catch_finally t s =
     (case (case t of TypeError \<Rightarrow> Inr JUndefined | Thrown v \<Rightarrow> js_get v ''error'') of
        Inr e \<Rightarrow>
          (s\<lparr>error := js_or e (JStr ''Processing failed. Please try again.''),
             isProcessing := False\<rparr>, [], Done)
      | Inl t' \<Rightarrow> (s\<lparr>isProcessing := False\<rparr>, [], Done))"

text \<open>Lines 73 to 87: up to the first \<^verbatim>\<open>await\<close>. \<open>now\<close> is \<^verbatim>\<open>Date.now()\<close>.\<close>

definition startProcessing :: "nat \<Rightarrow> ui_state \<Rightarrow> segment" where
  "startProcessing now s =
     (case uploadedFile s of
        None \<Rightarrow> (s, [], Done)
      | Some f \<Rightarrow>
          (s\<lparr>isProcessing := True, processingStep := 0, error := JStr ''''\<rparr>,
           [Http (uploadImage_request f [Lit ''Project_'', Val (JNum (of_nat now))] (objectType s))],
           UploadPending (uploadedImage s)))"

text \<open>
  Lines 97 to 103: the loop \<^verbatim>\<open>for (let i = 1; i < processingSteps.length; i++)\<close>, entered
  or re-entered at its test with counter \<open>i\<close>. Inside, it sets the step and waits one
  second; past it, the process request is sent.
\<close>

definition phaseLoop :: "nat \<Rightarrow> jsval \<Rightarrow> string option \<Rightarrow> ui_state \<Rightarrow> segment" where
  "phaseLoop i newProjectId img s =
     (if i < length processingSteps
      then (s\<lparr>processingStep := i\<rparr>, [SetTimeout 1000], TimerPending i newProjectId img)
      else (s, [Http (processProject_request newProjectId)], ProcessPending newProjectId img))"

text \<open>Lines 89 to 97: after the upload has settled.\<close>

definition afterUpload :: "string option \<Rightarrow> jsval settled \<Rightarrow> ui_state \<Rightarrow> segment" where
  "afterUpload img r s =
     (case uploadImage_result r of
        Inl t \<Rightarrow> catch_finally t s
      | Inr uploadResponse \<Rightarrow>
          (case js_get uploadResponse ''project_id'' of
             Inl t \<Rightarrow> catch_finally t s
           | Inr newProjectId \<Rightarrow>
               phaseLoop 1 newProjectId img (s\<lparr>projectId := newProjectId, processingStep := 1\<rparr>)))"

text \<open>Lines 106 to 116: the object handed to \<open>setResult3D\<close>.\<close>

definition buildResult :: "jsval \<Rightarrow> string option \<Rightarrow> jsval \<Rightarrow> thrown + result3D_obj" where
  "buildResult newProjectId img processResponse =
     (case js_get processResponse ''project'' of
        Inl t \<Rightarrow> Inl t
      | Inr project \<Rightarrow>
     (case js_get project ''vertices_count'' of
        Inl t \<Rightarrow> Inl t
      | Inr vertices_count \<Rightarrow>
     (case js_get project ''faces_count'' of
        Inl t \<Rightarrow> Inl t
      | Inr faces_count \<Rightarrow>
     (case js_get project ''processing_time'' of
        Inl t \<Rightarrow> Inl t
      | Inr processing_time \<Rightarrow>
          Inr \<lparr>res_projectId = newProjectId,
               plyFile = [Lit ''/api/projects/'', Val newProjectId, Lit ''/download''],
               stlFile = [Lit ''/api/projects/'', Val newProjectId, Lit ''/download''],
               previewImage = img,
               res_stats =
                 \<lparr>vertices = js_or vertices_count (JNum 15420),
                  faces = js_or faces_count (JNum 30840),
                  processingTime = [Val (js_or processing_time (JNum (23 / 10))), Lit ''s'']\<rparr>\<rparr>))))"

text \<open>Lines 103 to 125: after the process request has settled.\<close>

definition afterProcess :: "jsval \<Rightarrow> string option \<Rightarrow> jsval settled \<Rightarrow> ui_state \<Rightarrow> segment" where
  "afterProcess newProjectId img r s =
     (case processProject_result r of
        Inl t \<Rightarrow> catch_finally t s
      | Inr processResponse \<Rightarrow>
          (case buildResult newProjectId img processResponse of
             Inl t \<Rightarrow> catch_finally t s
           | Inr res \<Rightarrow> (s\<lparr>result3D := Some res, isProcessing := False\<rparr>, [], Done)))"

subsection \<open>resetUpload and handleDownload\<close>

definition resetUpload :: "ui_state \<Rightarrow> ui_state" where
  "resetUpload s =
     s\<lparr>uploadedImage := None, uploadedFile := None, result3D := None, isProcessing := False,
       processingStep := 0, error := JStr '''', projectId := JNull\<rparr>"

text \<open>
  \<open>handleDownload\<close> up to its \<^verbatim>\<open>await\<close>. With \<open>result3D\<close> still \<^verbatim>\<open>null\<close> the read of
  \<^verbatim>\<open>result3D.projectId\<close> throws inside the \<^verbatim>\<open>try\<close>.
\<close>

definition handleDownload :: "string \<Rightarrow> ui_state \<Rightarrow> segment" where
  "handleDownload format s =
     (case result3D s of
        None \<Rightarrow> (s\<lparr>error := JStr ''Download failed. Please try again.''\<rparr>, [], Done)
      | Some res \<Rightarrow>
          (s, [Http (downloadProject_request (res_projectId res))], DownloadPending res format))"

definition afterDownload :: "result3D_obj \<Rightarrow> string \<Rightarrow> blob settled \<Rightarrow> ui_state \<Rightarrow> segment" where
  "afterDownload res format r s =
     (case downloadProject_result r of
        Inl t \<Rightarrow> (s\<lparr>error := JStr ''Download failed. Please try again.''\<rparr>, [], Done)
      | Inr response \<Rightarrow>
          (s, [SaveLink response [Lit ''model_'', Val (res_projectId res), Lit ''.'', Val (JStr format)]],
           Done))"

subsection \<open>What the render shows\<close>

text \<open>
  The JSX tests \<^verbatim>\<open>!uploadedImage\<close> to choose between the drop zone (with the hidden
  file input) and the image card (with the reset button, the object type select and,
  under \<^verbatim>\<open>!isProcessing && !result3D\<close>, the generate button). The progress panel is
  rendered under \<^verbatim>\<open>isProcessing\<close> and prints \<^verbatim>\<open>processingSteps[processingStep]\<close>; the
  result panel with both download buttons is rendered under \<^verbatim>\<open>result3D\<close>.
\<close>

definition image_shown :: "ui_state \<Rightarrow> bool" where
  "image_shown s = (case uploadedImage s of None \<Rightarrow> False | Some u \<Rightarrow> u \<noteq> [])"

definition generate_shown :: "ui_state \<Rightarrow> bool" where
  "generate_shown s = (image_shown s \<and> \<not> isProcessing s \<and> result3D s = None)"

definition displayed_label :: "ui_state \<Rightarrow> string option" where
  "displayed_label s =
     (if isProcessing s \<and> processingStep s < length processingSteps
      then Some (processingSteps ! processingStep s) else None)"

definition result_shown :: "ui_state \<Rightarrow> bool" where
  "result_shown s = (result3D s \<noteq> None)"

text \<open>
  The error banner is rendered under \<^verbatim>\<open>error && ...\<close> with the cell's value as its
  child. A value that is an object cannot be rendered as a child, and no banner is
  shown for it.
\<close>

definition error_shown :: "ui_state \<Rightarrow> bool" where
  "error_shown s = (case error s of JObj fs \<Rightarrow> False | v \<Rightarrow> js_truthy v)"

subsection \<open>The page as an event-driven system\<close>

text \<open>
  JavaScript runs one handler, or one stretch of an asynchronous function between two
  \<^verbatim>\<open>await\<close>s, at a time. The system is the component state together with the
  suspended handlers; an event is a user gesture on an element that is rendered, or
  the settling of what a suspended handler waits for.
\<close>

datatype outcome =
    Loaded string
  | Fired
  | Replied "jsval settled"
  | Fetched "blob settled"

datatype event =
    DragOver
  | DragLeave
  | Drop "jsfile option"
  | InputChange "jsfile option"
  | ClickReset
  | SelectObjectType string
  | ClickGenerate nat
  | ClickDownloadPLY
  | ClickDownloadSTL
  | Settle nat outcome

record sys =
  ui :: ui_state
  tasks :: "task list"

definition initial_sys :: sys where
  "initial_sys = \<lparr>ui = initial_ui, tasks = []\<rparr>"

fun resume :: "task \<Rightarrow> outcome \<Rightarrow> ui_state \<Rightarrow> segment option" where
  "resume (ReadPending f) (Loaded dataUrl) s = Some (reader_onload f dataUrl s)"
| "resume (UploadPending img) (Replied r) s = Some (afterUpload img r s)"
| "resume (TimerPending i newProjectId img) Fired s = Some (phaseLoop (i + 1) newProjectId img s)"
| "resume (ProcessPending newProjectId img) (Replied r) s = Some (afterProcess newProjectId img r s)"
| "resume (DownloadPending res format) (Fetched r) s = Some (afterDownload res format r s)"
| "resume t out s = None"

text \<open>A handler call: its state and effects, and its suspension when it has one.\<close>

definition spawn :: "sys \<Rightarrow> segment \<Rightarrow> sys \<times> action list" where
  "spawn S seg =
     (case seg of
        (s, acts, t) \<Rightarrow> (\<lparr>ui = s, tasks = (if t = Done then tasks S else tasks S @ [t])\<rparr>, acts))"

definition step :: "event \<Rightarrow> sys \<Rightarrow> (sys \<times> action list) option" where
  "step e S =
     (case e of
        DragOver \<Rightarrow>
          if image_shown (ui S) then None else Some (S\<lparr>ui := (ui S)\<lparr>dragOver := True\<rparr>\<rparr>, [])
      | DragLeave \<Rightarrow>
          if image_shown (ui S) then None else Some (S\<lparr>ui := (ui S)\<lparr>dragOver := False\<rparr>\<rparr>, [])
      | Drop file \<Rightarrow>
          if image_shown (ui S) then None else Some (spawn S (handleDrop file (ui S)))
      | InputChange file \<Rightarrow>
          if image_shown (ui S) then None else Some (spawn S (handleFileInputChange file (ui S)))
      | ClickReset \<Rightarrow>
          if image_shown (ui S) then Some (S\<lparr>ui := resetUpload (ui S)\<rparr>, []) else None
      | SelectObjectType v \<Rightarrow>
          if image_shown (ui S) then Some (S\<lparr>ui := (ui S)\<lparr>objectType := v\<rparr>\<rparr>, []) else None
      | ClickGenerate now \<Rightarrow>
          if generate_shown (ui S) then Some (spawn S (startProcessing now (ui S))) else None
      | ClickDownloadPLY \<Rightarrow>
          if result_shown (ui S) then Some (spawn S (handleDownload ''ply'' (ui S))) else None
      | ClickDownloadSTL \<Rightarrow>
          if result_shown (ui S) then Some (spawn S (handleDownload ''stl'' (ui S))) else None
      | Settle n out \<Rightarrow>
          if n < length (tasks S)
          then (case resume (tasks S ! n) out (ui S) of
                  None \<Rightarrow> None
                | Some (s, acts, t) \<Rightarrow> Some (\<lparr>ui = s, tasks = (tasks S)[n := t]\<rparr>, acts))
          else None)"

text \<open>
  A run: after each event, the state reached and the effects that event caused.
  \<open>None\<close> when some event of the list is not possible where it stands.
\<close>

fun trace :: "event list \<Rightarrow> sys \<Rightarrow> (sys \<times> action list) list option" where
  "trace [] S = Some []"
| "trace (e # es) S =
     (case step e S of
        None \<Rightarrow> None
      | Some (S', acts) \<Rightarrow>
          (case trace es S' of None \<Rightarrow> None | Some r \<Rightarrow> Some ((S', acts) # r)))"

definition emitted :: "(sys \<times> action list) list \<Rightarrow> action list" where
  "emitted r = concat (map snd r)"

definition final :: "sys \<Rightarrow> (sys \<times> action list) list \<Rightarrow> sys" where
  "final S r = (if r = [] then S else fst (last r))"

subsection \<open>Runs of one job, and what is read off a run\<close>

text \<open>
  The events of one job whose suspended handler is task \<open>n\<close>: the click on the
  generate button, the upload settling with body \<open>d\<close>, six timers firing, and the
  process request settling with \<open>out\<close>.
\<close>

definition job_events :: "nat \<Rightarrow> nat \<Rightarrow> jsval \<Rightarrow> jsval settled \<Rightarrow> event list" where
  "job_events n now d out =
     [ClickGenerate now, Settle n (Replied (Resolved d)),
      Settle n Fired, Settle n Fired, Settle n Fired, Settle n Fired, Settle n Fired, Settle n Fired,
      Settle n (Replied out)]"

text \<open>The same job with a click on the reset button while the upload is in flight.\<close>

definition reset_during_upload :: "nat \<Rightarrow> nat \<Rightarrow> jsval \<Rightarrow> jsval settled \<Rightarrow> event list" where
  "reset_during_upload n now d out =
     [ClickGenerate now, ClickReset, Settle n (Replied (Resolved d)),
      Settle n Fired, Settle n Fired, Settle n Fired, Settle n Fired, Settle n Fired, Settle n Fired,
      Settle n (Replied out)]"

text \<open>The same job with a click on the reset button while the process request is in flight.\<close>

definition reset_during_process :: "nat \<Rightarrow> nat \<Rightarrow> jsval \<Rightarrow> jsval settled \<Rightarrow> event list" where
  "reset_during_process n now d out =
     [ClickGenerate now, Settle n (Replied (Resolved d)),
      Settle n Fired, Settle n Fired, Settle n Fired, Settle n Fired, Settle n Fired, Settle n Fired,
      ClickReset, Settle n (Replied out)]"

text \<open>The files that an effect sends to the upload endpoint.\<close>

fun uploads :: "action \<Rightarrow> jsfile list" where
  "uploads (Http (PostForm url f project_name object_type user_id)) = [f]"
| "uploads a = []"

definition uploaded_files :: "(sys \<times> action list) list \<Rightarrow> jsfile list" where
  "uploaded_files r = concat (map uploads (emitted r))"

text \<open>
  Every file the page holds or is reading has an image MIME type: the selected file, and
  the file of each reader still waiting for its \<^verbatim>\<open>onload\<close>.
\<close>

fun image_task :: "task \<Rightarrow> bool" where
  "image_task (ReadPending f) = startsWith (ftype f) ''image/''"
| "image_task t = True"

definition only_images :: "sys \<Rightarrow> bool" where
  "only_images S =
     ((case uploadedFile (ui S) of None \<Rightarrow> True | Some f \<Rightarrow> startsWith (ftype f) ''image/'')
      \<and> list_all image_task (tasks S))"





text \<open>
  An abandoned job is discarded from the \<open>k\<close>-th event of a run on when, after those
  \<open>k\<close> events, no process or download request goes out for its project id and no
  result is ever shown.
\<close>

definition discarded_from :: "nat \<Rightarrow> jsval \<Rightarrow> (sys \<times> action list) list \<Rightarrow> bool" where
  "discarded_from k pid r =
     (Http (processProject_request pid) \<notin> set (emitted (drop k r))
      \<and> Http (downloadProject_request pid) \<notin> set (emitted (drop k r))
      \<and> \<not> list_ex (\<lambda>e. result_shown (ui (fst e))) (drop k r))"

text \<open>
  The handlers of a job are the suspensions of \<open>startProcessing\<close>. An event disturbs
  the job whose handler is task \<open>n\<close> when it is a click on the reset button or resumes
  the handler of another job. A run is calm for the job when no event of it disturbs
  the job where it stands.
\<close>

fun job_task :: "task \<Rightarrow> bool" where
  "job_task (UploadPending img) = True"
| "job_task (TimerPending i p img) = True"
| "job_task (ProcessPending p img) = True"
| "job_task t = False"

fun disturbs :: "nat \<Rightarrow> sys \<Rightarrow> event \<Rightarrow> bool" where
  "disturbs n S ClickReset = True"
| "disturbs n S (Settle m out) = (m \<noteq> n \<and> m < length (tasks S) \<and> job_task (tasks S ! m))"
| "disturbs n S e = False"

fun calm :: "nat \<Rightarrow> event list \<Rightarrow> sys \<Rightarrow> bool" where
  "calm n [] S = True"
| "calm n (e # es) S =
     (\<not> disturbs n S e \<and> (case step e S of None \<Rightarrow> True | Some (S', acts) \<Rightarrow> calm n es S'))"

text \<open>
  The labels the progress panel prints in the course of a run up to the first event
  after which a result is shown, a label that stays over several events counted once.
\<close>

fun shown_labels :: "(sys \<times> action list) list \<Rightarrow> string list" where
  "shown_labels [] = []"
| "shown_labels (e # r) =
     (if result_shown (ui (fst e)) then []
      else (case displayed_label (ui (fst e)) of
              None \<Rightarrow> shown_labels r
            | Some lbl \<Rightarrow> lbl # shown_labels r))"

definition labels_before_result :: "(sys \<times> action list) list \<Rightarrow> string list" where
  "labels_before_result r = remdups_adj (shown_labels r)"

text \<open>
  Where the job of task \<open>n\<close> stands: at \<open>p = 0\<close> it waits for the upload, at
  \<open>p = 1, ..., 6\<close> for the timer of that turn of the loop, at \<open>p = 7\<close> for the process
  request, the panel showing step \<open>min p 6\<close> and no result being set. A job is over
  without a result when its handler has ended and no result is set.
\<close>

definition job_at :: "nat \<Rightarrow> nat \<Rightarrow> sys \<Rightarrow> bool" where
  "job_at n p S =
     (n < length (tasks S) \<and> isProcessing (ui S) \<and> result3D (ui S) = None
      \<and> processingStep (ui S) = min p 6
      \<and> (case tasks S ! n of
            UploadPending img \<Rightarrow> p = 0
          | TimerPending k pid img \<Rightarrow> p = k \<and> 1 \<le> k \<and> k \<le> 6
          | ProcessPending pid img \<Rightarrow> p = 7
          | t \<Rightarrow> False))"

definition job_dead :: "nat \<Rightarrow> sys \<Rightarrow> bool" where
  "job_dead n S = (n < length (tasks S) \<and> tasks S ! n = Done \<and> result3D (ui S) = None)"

section \<open>The model viewer (the script of the exported viewer page)\<close>

text \<open>
  The viewer page drives three.js r128. Coordinates are JavaScript numbers; they are
  kept here at their exact rational values, so the arithmetic below is the exact
  arithmetic that the page's floating-point operations round.
\<close>

datatype vec3 = Vector3 (vx: rat) (vy: rat) (vz: rat)

definition vsub :: "vec3 \<Rightarrow> vec3 \<Rightarrow> vec3" where
  "vsub a b = Vector3 (vx a - vx b) (vy a - vy b) (vz a - vz b)"

definition vadd :: "vec3 \<Rightarrow> vec3 \<Rightarrow> vec3" where
  "vadd a b = Vector3 (vx a + vx b) (vy a + vy b) (vz a + vz b)"

definition multiplyScalar :: "vec3 \<Rightarrow> rat \<Rightarrow> vec3" where
  "multiplyScalar a k = Vector3 (vx a * k) (vy a * k) (vz a * k)"

definition setScalar :: "rat \<Rightarrow> vec3" where
  "setScalar k = Vector3 k k k"

text \<open>
  \<^verbatim>\<open>THREE.Box3\<close> with its \<^verbatim>\<open>isEmpty\<close>, \<^verbatim>\<open>getCenter\<close>, \<^verbatim>\<open>getSize\<close> and
  \<^verbatim>\<open>translate\<close>: an empty box has centre and size zero.
\<close>

record box3 =
  bmin :: vec3
  bmax :: vec3

definition isEmpty :: "box3 \<Rightarrow> bool" where
  "isEmpty b =
     (vx (bmax b) < vx (bmin b) \<or> vy (bmax b) < vy (bmin b) \<or> vz (bmax b) < vz (bmin b))"

definition getCenter :: "box3 \<Rightarrow> vec3" where
  "getCenter b =
     (if isEmpty b then Vector3 0 0 0 else multiplyScalar (vadd (bmin b) (bmax b)) (1 / 2))"

definition getSize :: "box3 \<Rightarrow> vec3" where
  "getSize b = (if isEmpty b then Vector3 0 0 0 else vsub (bmax b) (bmin b))"

definition translate :: "box3 \<Rightarrow> vec3 \<Rightarrow> box3" where
  "translate b offset = \<lparr>bmin = vadd (bmin b) offset, bmax = vadd (bmax b) offset\<rparr>"

text \<open>\<^verbatim>\<open>Math.max(size.x, size.y, size.z)\<close>\<close>

definition maxSize_of :: "vec3 \<Rightarrow> rat" where
  "maxSize_of sz = max (vx sz) (max (vy sz) (vz sz))"

text \<open>
  The scene graph under the loaded model: a node is a mesh with its material's
  \<open>wireframe\<close> flag (\<open>Some w\<close>) or not a mesh (\<open>None\<close>), and has children.
  \<open>traverse\<close> calls its callback on the node and then on every descendant. Meshes
  that share one material object carry equal flags.
\<close>

datatype object3D = Object3D "bool option" "object3D list"

fun traverse :: "(bool option \<Rightarrow> bool option) \<Rightarrow> object3D \<Rightarrow> object3D" where
  "traverse callback (Object3D mesh children) =
     Object3D (callback mesh) (map (traverse callback) children)"

fun wireframe_flags :: "object3D \<Rightarrow> bool list" where
  "wireframe_flags (Object3D mesh children) =
     (case mesh of None \<Rightarrow> [] | Some w \<Rightarrow> [w]) @ concat (map wireframe_flags children)"

text \<open>The loaded \<open>gltf.scene\<close>: the root's position, scale and rotation about y, and its graph.\<close>

record model_obj =
  position :: vec3
  scale :: vec3
  rotation_y :: rat
  graph :: object3D

text \<open>
  The script's globals. \<open>controls_pending\<close> stands for what the orbit controls keep
  between two updates (the damped rotation, pan and zoom still to be applied); its
  type is left open. \<open>info_error\<close> tells that the overlay was replaced by the load
  error message.
\<close>

record 'c viewer =
  model :: "model_obj option"
  wireframeMode :: bool
  autoRotate :: bool
  camera_position :: vec3
  controls_target :: vec3
  controls_pending :: 'c
  info_error :: bool

text \<open>
  Two functions of three.js are parameters of the script's functions below:
  \<open>setFromObject\<close>, the world bounding box of an object
  (\<^verbatim>\<open>new THREE.Box3().setFromObject(model)\<close>), and \<open>update\<close>, the orbit controls'
  \<^verbatim>\<open>controls.update()\<close>, which from what is pending, the camera position and the target
  computes all three anew.
\<close>

type_synonym 'c controls_update = "'c \<Rightarrow> vec3 \<Rightarrow> vec3 \<Rightarrow> 'c \<times> vec3 \<times> vec3"

definition controls_update :: "'c controls_update \<Rightarrow> 'c viewer \<Rightarrow> 'c viewer" where
  "controls_update update v =
     (case update (controls_pending v) (camera_position v) (controls_target v) of
        (c, p, t) \<Rightarrow> v\<lparr>camera_position := p, controls_target := t, controls_pending := c\<rparr>)"

text \<open>\<open>init\<close>, up to the call of the loader.\<close>

definition init :: "'c \<Rightarrow> 'c viewer" where
  "init c =
     \<lparr>model = None, wireframeMode = False, autoRotate = False,
      camera_position = Vector3 0 0 100, controls_target = Vector3 0 0 0,
      controls_pending = c, info_error = False\<rparr>"

text \<open>The loader's success callback, with \<open>gltf.scene\<close>.\<close>

definition onLoad ::
  "(model_obj \<Rightarrow> box3) \<Rightarrow> 'c controls_update \<Rightarrow> model_obj \<Rightarrow> 'c viewer \<Rightarrow> 'c viewer" where
  "onLoad setFromObject update gltf_scene v =
     (let box = setFromObject gltf_scene;
          center = getCenter box;
          centred = gltf_scene\<lparr>position := vsub (position gltf_scene) center\<rparr>;
          size = getSize box;
          maxSize = maxSize_of size;
          scaled = (if maxSize > 50 then centred\<lparr>scale := setScalar (50 / maxSize)\<rparr> else centred)
      in controls_update update (v\<lparr>model := Some scaled, controls_target := center\<rparr>))"

text \<open>The loader's error callback.\<close>

definition onError :: "'c viewer \<Rightarrow> 'c viewer" where
  "onError v = v\<lparr>info_error := True\<rparr>"

text \<open>One frame of \<open>animate\<close>.\<close>

definition animate :: "'c controls_update \<Rightarrow> 'c viewer \<Rightarrow> 'c viewer" where
  "animate update v =
     controls_update update
       (case model v of
          None \<Rightarrow> v
        | Some m \<Rightarrow>
            if autoRotate v then v\<lparr>model := Some (m\<lparr>rotation_y := rotation_y m + 1 / 100\<rparr>)\<rparr> else v)"

definition resetView ::
  "(model_obj \<Rightarrow> box3) \<Rightarrow> 'c controls_update \<Rightarrow> 'c viewer \<Rightarrow> 'c viewer" where
  "resetView setFromObject update v =
     (case model v of
        None \<Rightarrow> v
      | Some m \<Rightarrow>
          (let box = setFromObject m;
               center = getCenter box;
               size = getSize box;
               maxSize = maxSize_of size;
               distance = maxSize * 2
           in controls_update update
                (v\<lparr>camera_position := Vector3 distance (distance * (1 / 2)) distance,
                   controls_target := center\<rparr>)))"

text \<open>The callback of \<open>toggleWireframe\<close>: \<^verbatim>\<open>if (child.isMesh) child.material.wireframe = wireframeMode\<close>.\<close>

definition set_wireframe :: "bool \<Rightarrow> bool option \<Rightarrow> bool option" where
  "set_wireframe w mesh = (case mesh of None \<Rightarrow> None | Some old \<Rightarrow> Some w)"

definition toggleWireframe :: "'c viewer \<Rightarrow> 'c viewer" where
  "toggleWireframe v =
     (case model v of
        None \<Rightarrow> v
      | Some m \<Rightarrow>
          v\<lparr>wireframeMode := \<not> wireframeMode v,
            model := Some (m\<lparr>graph := traverse (set_wireframe (\<not> wireframeMode v)) (graph m)\<rparr>)\<rparr>)"

definition toggleAutoRotate :: "'c viewer \<Rightarrow> 'c viewer" where
  "toggleAutoRotate v = v\<lparr>autoRotate := \<not> autoRotate v\<rparr>"

text \<open>What can happen on the page once the model is loaded: the three buttons, and a frame.\<close>

datatype viewer_event = ResetView | ToggleWireframe | ToggleAutoRotate | Frame

fun viewer_step ::
  "(model_obj \<Rightarrow> box3) \<Rightarrow> 'c controls_update \<Rightarrow> viewer_event \<Rightarrow> 'c viewer \<Rightarrow> 'c viewer" where
  "viewer_step setFromObject update ResetView v = resetView setFromObject update v"
| "viewer_step setFromObject update ToggleWireframe v = toggleWireframe v"
| "viewer_step setFromObject update ToggleAutoRotate v = toggleAutoRotate v"
| "viewer_step setFromObject update Frame v = animate update v"

definition viewer_run ::
  "(model_obj \<Rightarrow> box3) \<Rightarrow> 'c controls_update \<Rightarrow> viewer_event list \<Rightarrow> 'c viewer \<Rightarrow> 'c viewer" where
  "viewer_run setFromObject update es v = fold (viewer_step setFromObject update) es v"

text \<open>The wireframe flags of all meshes of the loaded model, in traversal order.\<close>

definition mesh_flags :: "'c viewer \<Rightarrow> bool list" where
  "mesh_flags v = (case model v of None \<Rightarrow> [] | Some m \<Rightarrow> wireframe_flags (graph m))"

text \<open>
  The materials as the glTF loader creates them: the format has no wireframe property,
  and a new three.js material has \<^verbatim>\<open>wireframe = false\<close>.
\<close>

definition loader_materials :: "model_obj \<Rightarrow> bool" where
  "loader_materials m = list_all (\<lambda>w. w = False) (wireframe_flags (graph m))"

text \<open>Every mesh's flag is the script's \<open>wireframeMode\<close>.\<close>

definition flags_agree :: "'c viewer \<Rightarrow> bool" where
  "flags_agree v = list_all (\<lambda>w. w = wireframeMode v) (mesh_flags v)"

text \<open>
  The orbit controls are at rest in \<open>c\<close> when nothing is pending there: an update
  leaves \<open>c\<close> as it is.
\<close>

definition at_rest :: "'c controls_update \<Rightarrow> 'c \<Rightarrow> bool" where
  "at_rest update c = (\<forall>p t. fst (update c p t) = c)"

text \<open>
  How three.js r128 behaves where the statements below need it. The world matrix of
  an object composes translation, rotation and scale, so a point \<open>x\<close> of an unrotated
  model lies at \<open>position + scale * x\<close>: for a model whose geometry has the bounding
  box \<open>local\<close> in the model's own coordinates, \<open>world_box local\<close> is what
  \<^verbatim>\<open>Box3.setFromObject\<close> computes.
\<close>

definition world_box :: "box3 \<Rightarrow> model_obj \<Rightarrow> box3" where
  "world_box local m =
     \<lparr>bmin = Vector3 (min (vx (position m) + vx (scale m) * vx (bmin local))
                        (vx (position m) + vx (scale m) * vx (bmax local)))
                   (min (vy (position m) + vy (scale m) * vy (bmin local))
                        (vy (position m) + vy (scale m) * vy (bmax local)))
                   (min (vz (position m) + vz (scale m) * vz (bmin local))
                        (vz (position m) + vz (scale m) * vz (bmax local))),
      bmax = Vector3 (max (vx (position m) + vx (scale m) * vx (bmin local))
                        (vx (position m) + vx (scale m) * vx (bmax local)))
                   (max (vy (position m) + vy (scale m) * vy (bmin local))
                        (vy (position m) + vy (scale m) * vy (bmax local)))
                   (max (vz (position m) + vz (scale m) * vz (bmin local))
                        (vz (position m) + vz (scale m) * vz (bmax local)))\<rparr>"

text \<open>
  \<^verbatim>\<open>OrbitControls.update\<close> with the settings \<open>init\<close> gives the controls
  (\<^verbatim>\<open>enableDamping = true\<close>, \<^verbatim>\<open>dampingFactor = 0.05\<close>), when what is pending is a pan,
  as a drag with the right button leaves it: the target moves by the pan offset times
  the damping factor, the camera keeps its offset from the target, and the pan offset
  is multiplied by one minus the damping factor.
\<close>

definition damped_pan :: "vec3 controls_update" where
  "damped_pan panOffset p t =
     (multiplyScalar panOffset (1 - 1 / 20),
      vadd (vadd t (multiplyScalar panOffset (1 / 20))) (vsub p t),
      vadd t (multiplyScalar panOffset (1 / 20)))"

section \<open>A sample session\<close>

text \<open>
  Concrete inputs on which the statements below are evaluated: a JPEG of a few bytes,
  the data URL its reader produces, the page once that file is selected, and the
  bodies the server answers the upload and the process request with.
\<close>

definition sample_file :: jsfile where
  "sample_file = \<lparr>ftype = ''image/jpeg'', fname = ''photo.jpg'', fbytes = ''JFIF''\<rparr>"

definition sample_url :: string where
  "sample_url = ''data:image/jpeg;base64,SkZJRg==''"

definition sample_selected :: sys where
  "sample_selected =
     \<lparr>ui = initial_ui\<lparr>uploadedImage := Some sample_url, uploadedFile := Some sample_file\<rparr>,
      tasks = [Done]\<rparr>"

definition sample_upload_body :: jsval where
  "sample_upload_body = JObj [(''project_id'', JNum 7)]"

definition sample_process_body :: jsval where
  "sample_process_body =
     JObj [(''project'', JObj [(''vertices_count'', JNum 20000), (''faces_count'', JNum 40000),
                              (''processing_time'', JNum (31 / 10))])]"

definition sample_result :: result3D_obj where
  "sample_result =
     \<lparr>res_projectId = JNum 7,
      plyFile = [Lit ''/api/projects/'', Val (JNum 7), Lit ''/download''],
      stlFile = [Lit ''/api/projects/'', Val (JNum 7), Lit ''/download''],
      previewImage = Some sample_url,
      res_stats = \<lparr>vertices = JNum 20000, faces = JNum 40000,
                   processingTime = [Val (JNum (31 / 10)), Lit ''s'']\<rparr>\<rparr>"

text \<open>
  The whole session from the fresh page: the file is chosen and read, then the job
  runs undisturbed; and the same with a reset while the upload is in flight.
\<close>

definition sample_run :: "event list" where
  "sample_run =
     [InputChange (Some sample_file), Settle 0 (Loaded sample_url)]
     @ job_events 1 5 sample_upload_body (Resolved sample_process_body)"

definition sample_reset_run :: "event list" where
  "sample_reset_run =
     [InputChange (Some sample_file), Settle 0 (Loaded sample_url)]
     @ reset_during_upload 1 5 sample_upload_body (Resolved sample_process_body)"


text \<open>
  The page once the sample job has completed, and with a PLY download in flight; a
  process response whose three metrics are present and zero; a file that is not an
  image.
\<close>

definition sample_completed :: sys where
  "sample_completed =
     \<lparr>ui = (ui sample_selected)\<lparr>projectId := JNum 7, processingStep := 6,
                                 result3D := Some sample_result\<rparr>,
      tasks = [Done, Done]\<rparr>"

definition sample_downloading :: sys where
  "sample_downloading =
     \<lparr>ui = ui sample_completed, tasks = [Done, Done, DownloadPending sample_result ''ply'']\<rparr>"

definition zero_metrics_body :: jsval where
  "zero_metrics_body =
     JObj [(''project'', JObj [(''vertices_count'', JNum 0), (''faces_count'', JNum 0),
                              (''processing_time'', JNum 0)])]"

definition pdf_file :: jsfile where
  "pdf_file = \<lparr>ftype = ''application/pdf'', fname = ''notes.pdf'', fbytes = ''%PDF''\<rparr>"

text \<open>
  For the viewer: a scene of two meshes, one of them nested, as the loader delivers
  it; a bounding box of largest dimension 120 and one of largest dimension 40; and
  orbit controls with nothing pending, whose update leaves everything as it is.
\<close>

definition sample_scene :: model_obj where
  "sample_scene =
     \<lparr>position = Vector3 0 0 0, scale = Vector3 1 1 1, rotation_y = 0,
      graph = Object3D None [Object3D (Some False) [], Object3D None [Object3D (Some False) []]]\<rparr>"

definition big_box :: box3 where
  "big_box = \<lparr>bmin = Vector3 0 0 0, bmax = Vector3 120 60 30\<rparr>"

definition small_box :: box3 where
  "small_box = \<lparr>bmin = Vector3 (-10) 0 0, bmax = Vector3 30 20 10\<rparr>"

definition still :: "unit controls_update" where
  "still c p t = (c, p, t)"

text \<open>
  A session with two jobs. The first job's upload answers and three of its timers
  fire; the page is reset and the same file chosen again; a second job is started
  (the eleventh event) and never reset; the first job's remaining timers fire and its
  process request answers; then the second job's upload (project id 8), timers and
  process request follow.
\<close>

definition sample_upload_body_8 :: jsval where
  "sample_upload_body_8 = JObj [(''project_id'', JNum 8)]"

definition overlap_run :: "event list" where
  "overlap_run =
     [InputChange (Some sample_file), Settle 0 (Loaded sample_url),
      ClickGenerate 5, Settle 1 (Replied (Resolved sample_upload_body)),
      Settle 1 Fired, Settle 1 Fired, Settle 1 Fired,
      ClickReset,
      InputChange (Some sample_file), Settle 2 (Loaded sample_url),
      ClickGenerate 9,
      Settle 1 Fired, Settle 1 Fired, Settle 1 Fired,
      Settle 1 (Replied (Resolved sample_process_body)),
      Settle 3 (Replied (Resolved sample_upload_body_8)),
      Settle 3 Fired, Settle 3 Fired, Settle 3 Fired, Settle 3 Fired, Settle 3 Fired, Settle 3 Fired,
      Settle 3 (Replied (Resolved sample_process_body))]"

text \<open>
  What follows the click on the generate button in a run of the sample job during
  which the user changes the object type three times.
\<close>

definition calm_tail :: "event list" where
  "calm_tail =
     [SelectObjectType ''fruit'', Settle 1 (Replied (Resolved sample_upload_body)),
      Settle 1 Fired, Settle 1 Fired, SelectObjectType ''flat'', Settle 1 Fired,
      Settle 1 Fired, Settle 1 Fired, Settle 1 Fired,
      Settle 1 (Replied (Resolved sample_process_body)), SelectObjectType ''auto'']"

text \<open>
  For the viewer again: the geometry of a model 60 wide, 120 high and 30 deep, with a
  corner at its own origin; the viewer after loading the sample scene with the
  geometry \<open>small_box\<close> and damped controls with nothing pending; and the same with a
  pan of one unit pending.
\<close>

definition tall_local :: box3 where
  "tall_local = \<lparr>bmin = Vector3 0 0 0, bmax = Vector3 60 120 30\<rparr>"

definition loaded_small :: "vec3 viewer" where
  "loaded_small = onLoad (world_box small_box) damped_pan sample_scene (init (Vector3 0 0 0))"

definition loaded_panned :: "vec3 viewer" where
  "loaded_panned = loaded_small\<lparr>controls_pending := Vector3 1 0 0\<rparr>"

section \<open>Stepping the page\<close>

lemma length_processingSteps: "length processingSteps = 7"
  by (simp add: processingSteps_def)

lemma trace_snoc:
  "trace es S = Some r \<Longrightarrow> step e (final S r) = Some (S', a) \<Longrightarrow>
   trace (es @ [e]) S = Some (r @ [(S', a)])"
proof (induction es arbitrary: S r)
  case Nil
  then show ?case by (simp add: final_def)
next
  case (Cons x xs)
  from Cons.prems(1) obtain S1 a1 r1 where
    x: "step x S = Some (S1, a1)" and xs: "trace xs S1 = Some r1" and r: "r = (S1, a1) # r1"
    by (auto split: option.splits)
  have "final S r = final S1 r1"
    by (simp add: r final_def)
  with Cons.prems(2) have "step e (final S1 r1) = Some (S', a)"
    by simp
  from Cons.IH[OF xs this] show ?case
    by (simp add: x r)
qed

lemma step_generate:
  assumes "generate_shown (ui S)" "uploadedFile (ui S) = Some f"
  shows "step (ClickGenerate now) S =
    Some (\<lparr>ui = (ui S)\<lparr>isProcessing := True, processingStep := 0, error := JStr ''''\<rparr>,
           tasks = tasks S @ [UploadPending (uploadedImage (ui S))]\<rparr>,
          [Http (uploadImage_request f [Lit ''Project_'', Val (JNum (of_nat now))] (objectType (ui S)))])"
  using assms by (simp add: step_def spawn_def startProcessing_def)

lemma step_settle_last:
  "step (Settle (length ts) out) \<lparr>ui = s, tasks = ts @ [t]\<rparr> =
     (case resume t out s of
        None \<Rightarrow> None
      | Some (s', acts, t') \<Rightarrow> Some (\<lparr>ui = s', tasks = ts @ [t']\<rparr>, acts))"
  by (simp add: step_def split: option.splits)

lemma step_reset:
  "image_shown s \<Longrightarrow>
   step ClickReset \<lparr>ui = s, tasks = ts\<rparr> = Some (\<lparr>ui = resetUpload s, tasks = ts\<rparr>, [])"
  by (simp add: step_def)

lemma catch_finally_shape: "catch_finally t s = (fst (catch_finally t s), [], Done)"
  by (simp add: catch_finally_def split: sum.splits thrown.splits)

lemma afterProcess_shape: "afterProcess p i r s = (fst (afterProcess p i r s), [], Done)"
  using catch_finally_shape by (simp add: afterProcess_def split: sum.splits)

lemma step_settle_process:
  "step (Settle (length ts) (Replied out)) \<lparr>ui = s, tasks = ts @ [ProcessPending pid img]\<rparr> =
     Some (\<lparr>ui = fst (afterProcess pid img out s), tasks = ts @ [Done]\<rparr>, [])"
  using afterProcess_shape[of pid img out s]
  by (cases "afterProcess pid img out s") (simp add: step_settle_last)

text \<open>From the upload's success to the sending of the process request.\<close>

lemma phase_tail:
  fixes s :: ui_state and ts :: "task list" and img :: "string option"
  assumes "js_get d ''project_id'' = Inr pid"
  defines "st \<equiv> \<lambda>k. \<lparr>ui = s\<lparr>projectId := pid, processingStep := k\<rparr>,
                        tasks = ts @ [TimerPending k pid img]\<rparr>"
  shows "trace [Settle (length ts) (Replied (Resolved d)),
                Settle (length ts) Fired, Settle (length ts) Fired, Settle (length ts) Fired,
                Settle (length ts) Fired, Settle (length ts) Fired, Settle (length ts) Fired]
           \<lparr>ui = s, tasks = ts @ [UploadPending img]\<rparr> =
         Some [(st 1, [SetTimeout 1000]), (st 2, [SetTimeout 1000]), (st 3, [SetTimeout 1000]),
               (st 4, [SetTimeout 1000]), (st 5, [SetTimeout 1000]), (st 6, [SetTimeout 1000]),
               (\<lparr>ui = s\<lparr>projectId := pid, processingStep := 6\<rparr>,
                 tasks = ts @ [ProcessPending pid img]\<rparr>,
                [Http (processProject_request pid)])]"
proof -
  let ?n = "length ts"
  define S0 where "S0 = \<lparr>ui = s, tasks = ts @ [UploadPending img]\<rparr>"
  define SP where "SP = \<lparr>ui = s\<lparr>projectId := pid, processingStep := 6\<rparr>,
                         tasks = ts @ [ProcessPending pid img]\<rparr>"
  have e1: "step (Settle ?n (Replied (Resolved d))) S0 = Some (st 1, [SetTimeout 1000])"
    using assms(1)
    by (simp add: S0_def st_def step_settle_last afterUpload_def uploadImage_result_def
        phaseLoop_def length_processingSteps)
  have et: "step (Settle ?n Fired) (st k) = Some (st k', [SetTimeout 1000])"
    if "k' = k + 1" "k' < 7" for k k'
    using that by (simp add: st_def step_settle_last phaseLoop_def length_processingSteps)
  have e2: "step (Settle ?n Fired) (st 1) = Some (st 2, [SetTimeout 1000])" by (rule et) simp_all
  have e3: "step (Settle ?n Fired) (st 2) = Some (st 3, [SetTimeout 1000])" by (rule et) simp_all
  have e4: "step (Settle ?n Fired) (st 3) = Some (st 4, [SetTimeout 1000])" by (rule et) simp_all
  have e5: "step (Settle ?n Fired) (st 4) = Some (st 5, [SetTimeout 1000])" by (rule et) simp_all
  have e6: "step (Settle ?n Fired) (st 5) = Some (st 6, [SetTimeout 1000])" by (rule et) simp_all
  have e7: "step (Settle ?n Fired) (st 6) = Some (SP, [Http (processProject_request pid)])"
    by (simp add: st_def SP_def step_settle_last phaseLoop_def length_processingSteps)
  show ?thesis
    unfolding S0_def[symmetric] SP_def[symmetric]
    by (simp only: trace.simps e1 e2 e3 e4 e5 e6 e7 option.case prod.case)
qed


lemma sample_selected_reached:
  "trace [InputChange (Some sample_file), Settle 0 (Loaded sample_url)] initial_sys =
     Some [(\<lparr>ui = initial_ui, tasks = [ReadPending sample_file]\<rparr>, [ReadAsDataURL sample_file]),
           (sample_selected, [])]"
  by (simp add: step_def spawn_def handleFileInputChange_def handleFileSelect_def startsWith_def
      sample_file_def sample_selected_def initial_sys_def initial_ui_def image_shown_def
      reader_onload_def)

lemma sample_facts:
  "generate_shown (ui sample_selected)"
  "uploadedFile (ui sample_selected) = Some sample_file"
  "uploadedImage (ui sample_selected) = Some sample_url"
  "objectType (ui sample_selected) = ''auto''"
  "tasks sample_selected = [Done]"
  "js_get sample_upload_body ''project_id'' = Inr (JNum 7)"
  "buildResult (JNum 7) (Some sample_url) sample_process_body = Inr sample_result"
  by (simp_all add: sample_selected_def generate_shown_def image_shown_def initial_ui_def
      sample_url_def sample_upload_body_def sample_process_body_def buildResult_def
      sample_result_def js_or_def)


lemma catch_finally_isProcessing: "isProcessing (fst (catch_finally t s)) = False"
  by (simp add: catch_finally_def split: sum.splits thrown.splits)

lemma afterProcess_isProcessing: "isProcessing (fst (afterProcess pid img out s)) = False"
  by (simp add: afterProcess_def catch_finally_isProcessing split: sum.splits)


lemma buildResult_projectId: "buildResult pid img d = Inr res \<Longrightarrow> res_projectId res = pid"
  by (auto simp: buildResult_def split: sum.splits)

lemma afterProcess_ok:
  "buildResult pid img d = Inr res \<Longrightarrow>
   fst (afterProcess pid img (Resolved d) s) = s\<lparr>result3D := Some res, isProcessing := False\<rparr>"
  by (simp add: afterProcess_def processProject_result_def)

section \<open>The phase display and the process call\<close>




section \<open>Reset while a request is in flight\<close>

lemma reset_upload_trace:
  assumes "generate_shown (ui S)" "uploadedFile (ui S) = Some f" "js_get d ''project_id'' = Inr pid"
  defines "s0 \<equiv> (ui S)\<lparr>isProcessing := True, processingStep := 0, error := JStr ''''\<rparr>"
  defines "sr \<equiv> resetUpload (ui S)"
  defines "img \<equiv> uploadedImage (ui S)"
  defines "st \<equiv> \<lambda>k. \<lparr>ui = sr\<lparr>projectId := pid, processingStep := k\<rparr>,
                        tasks = tasks S @ [TimerPending k pid img]\<rparr>"
  shows "trace (reset_during_upload (length (tasks S)) now d out) S = Some
    [(\<lparr>ui = s0, tasks = tasks S @ [UploadPending img]\<rparr>,
      [Http (uploadImage_request f [Lit ''Project_'', Val (JNum (of_nat now))] (objectType (ui S)))]),
     (\<lparr>ui = sr, tasks = tasks S @ [UploadPending img]\<rparr>, []),
     (st 1, [SetTimeout 1000]), (st 2, [SetTimeout 1000]), (st 3, [SetTimeout 1000]),
     (st 4, [SetTimeout 1000]), (st 5, [SetTimeout 1000]), (st 6, [SetTimeout 1000]),
     (\<lparr>ui = sr\<lparr>projectId := pid, processingStep := 6\<rparr>, tasks = tasks S @ [ProcessPending pid img]\<rparr>,
      [Http (processProject_request pid)]),
     (\<lparr>ui = fst (afterProcess pid img out (sr\<lparr>projectId := pid, processingStep := 6\<rparr>)),
        tasks = tasks S @ [Done]\<rparr>, [])]"
proof -
  let ?n = "length (tasks S)"
  note t7 = phase_tail[OF assms(3), of "tasks S" sr img]
  note t8 = trace_snoc[OF t7, of "Settle ?n (Replied out)"
      "\<lparr>ui = fst (afterProcess pid img out (sr\<lparr>projectId := pid, processingStep := 6\<rparr>)),
        tasks = tasks S @ [Done]\<rparr>" "[]"]
  have last: "step (Settle ?n (Replied out))
          \<lparr>ui = sr\<lparr>projectId := pid, processingStep := 6\<rparr>,
             tasks = tasks S @ [ProcessPending pid img]\<rparr> =
        Some (\<lparr>ui = fst (afterProcess pid img out (sr\<lparr>projectId := pid, processingStep := 6\<rparr>)),
                tasks = tasks S @ [Done]\<rparr>, [])"
    by (rule step_settle_process)
  have shown: "image_shown s0"
    using assms(1) by (simp add: generate_shown_def image_shown_def s0_def)
  have sr: "resetUpload s0 = sr"
    by (simp add: resetUpload_def s0_def sr_def)
  have reset: "step ClickReset \<lparr>ui = s0, tasks = tasks S @ [UploadPending img]\<rparr> =
      Some (\<lparr>ui = sr, tasks = tasks S @ [UploadPending img]\<rparr>, [])"
    using step_reset[OF shown] by (simp add: sr)
  from t8 last show ?thesis
    unfolding reset_during_upload_def st_def
    using step_generate[OF assms(1,2), of now] reset
    by (simp add: s0_def img_def final_def)
qed

lemma reset_process_trace:
  assumes "generate_shown (ui S)" "uploadedFile (ui S) = Some f" "js_get d ''project_id'' = Inr pid"
  defines "s0 \<equiv> (ui S)\<lparr>isProcessing := True, processingStep := 0, error := JStr ''''\<rparr>"
  defines "sr \<equiv> resetUpload (ui S)"
  defines "img \<equiv> uploadedImage (ui S)"
  defines "st \<equiv> \<lambda>k. \<lparr>ui = s0\<lparr>projectId := pid, processingStep := k\<rparr>,
                        tasks = tasks S @ [TimerPending k pid img]\<rparr>"
  shows "trace (reset_during_process (length (tasks S)) now d out) S = Some
    [(\<lparr>ui = s0, tasks = tasks S @ [UploadPending img]\<rparr>,
      [Http (uploadImage_request f [Lit ''Project_'', Val (JNum (of_nat now))] (objectType (ui S)))]),
     (st 1, [SetTimeout 1000]), (st 2, [SetTimeout 1000]), (st 3, [SetTimeout 1000]),
     (st 4, [SetTimeout 1000]), (st 5, [SetTimeout 1000]), (st 6, [SetTimeout 1000]),
     (\<lparr>ui = s0\<lparr>projectId := pid, processingStep := 6\<rparr>, tasks = tasks S @ [ProcessPending pid img]\<rparr>,
      [Http (processProject_request pid)]),
     (\<lparr>ui = sr, tasks = tasks S @ [ProcessPending pid img]\<rparr>, []),
     (\<lparr>ui = fst (afterProcess pid img out sr), tasks = tasks S @ [Done]\<rparr>, [])]"
proof -
  let ?n = "length (tasks S)"
  let ?SP = "\<lparr>ui = s0\<lparr>projectId := pid, processingStep := 6\<rparr>,
              tasks = tasks S @ [ProcessPending pid img]\<rparr>"
  let ?SR = "\<lparr>ui = sr, tasks = tasks S @ [ProcessPending pid img]\<rparr>"
  let ?SF = "\<lparr>ui = fst (afterProcess pid img out sr), tasks = tasks S @ [Done]\<rparr>"
  note t7 = phase_tail[OF assms(3), of "tasks S" s0 img]
  have shown: "image_shown (s0\<lparr>projectId := pid, processingStep := 6\<rparr>)"
    using assms(1) by (simp add: generate_shown_def image_shown_def s0_def)
  have sr: "resetUpload (s0\<lparr>projectId := pid, processingStep := 6\<rparr>) = sr"
    by (simp add: resetUpload_def s0_def sr_def)
  have reset: "step ClickReset ?SP = Some (?SR, [])"
    using step_reset[OF shown] by (simp add: sr)
  have t8: "trace ([Settle ?n (Replied (Resolved d)),
                Settle ?n Fired, Settle ?n Fired, Settle ?n Fired,
                Settle ?n Fired, Settle ?n Fired, Settle ?n Fired] @ [ClickReset])
             \<lparr>ui = s0, tasks = tasks S @ [UploadPending img]\<rparr> = Some (
         [(st 1, [SetTimeout 1000]), (st 2, [SetTimeout 1000]), (st 3, [SetTimeout 1000]),
          (st 4, [SetTimeout 1000]), (st 5, [SetTimeout 1000]), (st 6, [SetTimeout 1000]),
          (?SP, [Http (processProject_request pid)])] @ [(?SR, [])])"
    unfolding st_def by (rule trace_snoc[OF t7]) (simp add: final_def reset)
  have last: "step (Settle ?n (Replied out)) ?SR = Some (?SF, [])"
    by (rule step_settle_process)
  have t9: "trace (([Settle ?n (Replied (Resolved d)),
                Settle ?n Fired, Settle ?n Fired, Settle ?n Fired,
                Settle ?n Fired, Settle ?n Fired, Settle ?n Fired] @ [ClickReset])
                @ [Settle ?n (Replied out)])
             \<lparr>ui = s0, tasks = tasks S @ [UploadPending img]\<rparr> = Some ((
         [(st 1, [SetTimeout 1000]), (st 2, [SetTimeout 1000]), (st 3, [SetTimeout 1000]),
          (st 4, [SetTimeout 1000]), (st 5, [SetTimeout 1000]), (st 6, [SetTimeout 1000]),
          (?SP, [Http (processProject_request pid)])] @ [(?SR, [])]) @ [(?SF, [])])"
    by (rule trace_snoc[OF t8]) (simp add: final_def last)
  from t9 show ?thesis
    unfolding reset_during_process_def
    using step_generate[OF assms(1,2), of now]
    by (simp add: s0_def img_def)
qed

text \<open>
  Claim C3, as stated: a response that arrives after a reset is detected and
  discarded. In the sample session the reset button is clicked while the upload is
  in flight; after the reset the process request still goes out for the abandoned
  project id 7, and the run ends with a result shown although no file is selected.
\<close>

theorem abandoned_job_not_discarded:
  "(case trace sample_reset_run initial_sys of
      None \<Rightarrow> False
    | Some r \<Rightarrow>
        Http (processProject_request (JNum 7)) \<in> set (emitted (drop 4 r))
        \<and> result_shown (ui (final initial_sys r))
        \<and> uploadedFile (ui (final initial_sys r)) = None
        \<and> \<not> discarded_from 4 (JNum 7) r)"
  by code_simp

text \<open>
  Claim C3, amended. A reset clears the component state and leaves every suspended
  handler in place; nothing compares a late response with the job now active. With
  the reset while the upload is in flight, the handler goes on when the upload
  resolves: the process request goes out for that job's project id after the reset,
  and the run ends in the cleared state with that project id, step 6 and the job's
  result set. With the reset while the process request is in flight, the run ends in
  the cleared state with the job's result set. In both, the download button then
  requests the download of that project id.
\<close>

theorem reset_does_not_discard:
  assumes "generate_shown (ui S)" and "uploadedFile (ui S) = Some f"
    and "js_get d ''project_id'' = Inr pid"
    and "buildResult pid (uploadedImage (ui S)) d' = Inr res"
  shows "(\<exists>r. trace (reset_during_upload (length (tasks S)) now d (Resolved d')) S = Some r
            \<and> ui (fst (r ! 1)) = resetUpload (ui S)
            \<and> tasks (fst (r ! 1)) = tasks (fst (r ! 0))
            \<and> Http (processProject_request pid) \<in> set (emitted (drop 2 r))
            \<and> ui (final S r) =
                (resetUpload (ui S))\<lparr>projectId := pid, processingStep := 6, result3D := Some res\<rparr>
            \<and> map_option snd (step ClickDownloadPLY (final S r)) =
                Some [Http (downloadProject_request pid)])
       \<and> (\<exists>r. trace (reset_during_process (length (tasks S)) now d (Resolved d')) S = Some r
            \<and> ui (fst (r ! 8)) = resetUpload (ui S)
            \<and> tasks (fst (r ! 8)) = tasks (fst (r ! 7))
            \<and> ui (final S r) = (resetUpload (ui S))\<lparr>result3D := Some res\<rparr>
            \<and> map_option snd (step ClickDownloadPLY (final S r)) =
                Some [Http (downloadProject_request pid)])"
proof -
  have pid: "res_projectId res = pid"
    using assms(4) by (rule buildResult_projectId)
  have a: "\<exists>r. trace (reset_during_upload (length (tasks S)) now d (Resolved d')) S = Some r
            \<and> ui (fst (r ! 1)) = resetUpload (ui S)
            \<and> tasks (fst (r ! 1)) = tasks (fst (r ! 0))
            \<and> Http (processProject_request pid) \<in> set (emitted (drop 2 r))
            \<and> ui (final S r) =
                (resetUpload (ui S))\<lparr>projectId := pid, processingStep := 6, result3D := Some res\<rparr>
            \<and> map_option snd (step ClickDownloadPLY (final S r)) =
                Some [Http (downloadProject_request pid)]"
    unfolding reset_upload_trace[OF assms(1-3)]
    by (simp add: emitted_def final_def afterProcess_ok[OF assms(4)] step_def result_shown_def
        spawn_def handleDownload_def pid resetUpload_def)
  have b: "\<exists>r. trace (reset_during_process (length (tasks S)) now d (Resolved d')) S = Some r
            \<and> ui (fst (r ! 8)) = resetUpload (ui S)
            \<and> tasks (fst (r ! 8)) = tasks (fst (r ! 7))
            \<and> ui (final S r) = (resetUpload (ui S))\<lparr>result3D := Some res\<rparr>
            \<and> map_option snd (step ClickDownloadPLY (final S r)) =
                Some [Http (downloadProject_request pid)]"
    unfolding reset_process_trace[OF assms(1-3)]
    by (simp add: emitted_def final_def afterProcess_ok[OF assms(4)] step_def result_shown_def
        spawn_def handleDownload_def pid resetUpload_def)
  from a b show ?thesis by blast
qed

theorem reset_does_not_discard_witness:
  "generate_shown (ui sample_selected) \<and> uploadedFile (ui sample_selected) = Some sample_file
     \<and> js_get sample_upload_body ''project_id'' = Inr (JNum 7)
     \<and> buildResult (JNum 7) (uploadedImage (ui sample_selected)) sample_process_body = Inr sample_result
     \<and> (\<exists>r. trace (reset_during_upload 1 5 sample_upload_body (Resolved sample_process_body))
                 sample_selected = Some r
            \<and> Http (processProject_request (JNum 7)) \<in> set (emitted (drop 2 r))
            \<and> ui (final sample_selected r) =
                (resetUpload (ui sample_selected))
                  \<lparr>projectId := JNum 7, processingStep := 6, result3D := Some sample_result\<rparr>)
     \<and> (\<exists>r. trace (reset_during_process 1 5 sample_upload_body (Resolved sample_process_body))
                 sample_selected = Some r
            \<and> ui (final sample_selected r) =
                (resetUpload (ui sample_selected))\<lparr>result3D := Some sample_result\<rparr>)"
  using reset_does_not_discard[where S = sample_selected and f = sample_file
      and d = sample_upload_body and pid = "JNum 7" and d' = sample_process_body
      and res = sample_result and now = 5]
  by (simp add: sample_facts) blast


section \<open>The labels shown in the course of a job\<close>

lemma distinct_processingSteps: "distinct processingSteps"
  by (simp add: processingSteps_def)

lemma label_at: "job_at n p S \<Longrightarrow> displayed_label (ui S) = Some (processingSteps ! min p 6)"
  by (simp add: job_at_def displayed_label_def length_processingSteps)

lemma no_result_at: "job_at n p S \<Longrightarrow> \<not> result_shown (ui S)"
  by (simp add: job_at_def result_shown_def)

lemma no_result_dead: "job_dead n S \<Longrightarrow> \<not> result_shown (ui S)"
  by (simp add: job_dead_def result_shown_def)

lemma handleFileSelect_frame:
  assumes "handleFileSelect fl s = (s', acts, t)"
  shows "isProcessing s' = isProcessing s \<and> processingStep s' = processingStep s
         \<and> result3D s' = result3D s \<and> \<not> job_task t"
  using assms by (auto simp: handleFileSelect_def split: option.splits if_splits)

lemma resume_other_frame:
  assumes "resume t out s = Some (s', acts, t')" and "\<not> job_task t" and "result3D s = None"
  shows "isProcessing s' = isProcessing s \<and> processingStep s' = processingStep s
         \<and> result3D s' = None"
  using assms
  by (cases t; cases out)
    (auto simp: reader_onload_def afterDownload_def split: sum.splits)

lemma noise_keeps_job:
  assumes "job_at n p S" and "\<not> disturbs n S e" and "step e S = Some (S', acts)"
    and "\<forall>out. e \<noteq> Settle n out"
  shows "job_at n p S'"
proof (cases e)
  case DragOver
  with assms show ?thesis by (auto simp: step_def job_at_def split: if_splits)
next
  case DragLeave
  with assms show ?thesis by (auto simp: step_def job_at_def split: if_splits)
next
  case (Drop fl)
  obtain s' a t where h: "handleFileSelect fl ((ui S)\<lparr>dragOver := False\<rparr>) = (s', a, t)"
    by (cases "handleFileSelect fl ((ui S)\<lparr>dragOver := False\<rparr>)") auto
  from handleFileSelect_frame[OF h] assms Drop h show ?thesis
    by (auto simp: step_def handleDrop_def spawn_def job_at_def nth_append split: if_splits)
next
  case (InputChange fl)
  obtain s' a t where h: "handleFileSelect fl (ui S) = (s', a, t)"
    by (cases "handleFileSelect fl (ui S)") auto
  from handleFileSelect_frame[OF h] assms InputChange h show ?thesis
    by (auto simp: step_def handleFileInputChange_def spawn_def job_at_def nth_append
        split: if_splits)
next
  case ClickReset
  with assms show ?thesis by simp
next
  case (SelectObjectType v)
  with assms show ?thesis by (auto simp: step_def job_at_def split: if_splits)
next
  case (ClickGenerate now)
  with assms show ?thesis
    by (auto simp: step_def job_at_def generate_shown_def split: if_splits)
next
  case ClickDownloadPLY
  with assms show ?thesis
    by (auto simp: step_def job_at_def result_shown_def split: if_splits)
next
  case ClickDownloadSTL
  with assms show ?thesis
    by (auto simp: step_def job_at_def result_shown_def split: if_splits)
next
  case (Settle m out)
  with assms(4) have mn: "m \<noteq> n" by auto
  from assms(3) Settle obtain s' t' where
    m: "m < length (tasks S)" and
    r: "resume (tasks S ! m) out (ui S) = Some (s', acts, t')" and
    S': "S' = \<lparr>ui = s', tasks = (tasks S)[m := t']\<rparr>"
    by (auto simp: step_def split: if_splits option.splits)
  from assms(2) Settle mn m have nj: "\<not> job_task (tasks S ! m)" by simp
  from assms(1) have none: "result3D (ui S) = None" by (simp add: job_at_def)
  from resume_other_frame[OF r nj none] assms(1) mn show ?thesis
    by (simp add: S' job_at_def)
qed

lemma noise_keeps_dead:
  assumes "job_dead n S" and "\<not> disturbs n S e" and "step e S = Some (S', acts)"
  shows "job_dead n S'"
proof (cases e)
  case DragOver
  with assms show ?thesis by (auto simp: step_def job_dead_def split: if_splits)
next
  case DragLeave
  with assms show ?thesis by (auto simp: step_def job_dead_def split: if_splits)
next
  case (Drop fl)
  obtain s' a t where h: "handleFileSelect fl ((ui S)\<lparr>dragOver := False\<rparr>) = (s', a, t)"
    by (cases "handleFileSelect fl ((ui S)\<lparr>dragOver := False\<rparr>)") auto
  from handleFileSelect_frame[OF h] assms Drop h show ?thesis
    by (auto simp: step_def handleDrop_def spawn_def job_dead_def nth_append split: if_splits)
next
  case (InputChange fl)
  obtain s' a t where h: "handleFileSelect fl (ui S) = (s', a, t)"
    by (cases "handleFileSelect fl (ui S)") auto
  from handleFileSelect_frame[OF h] assms InputChange h show ?thesis
    by (auto simp: step_def handleFileInputChange_def spawn_def job_dead_def nth_append
        split: if_splits)
next
  case ClickReset
  with assms show ?thesis by simp
next
  case (SelectObjectType v)
  with assms show ?thesis by (auto simp: step_def job_dead_def split: if_splits)
next
  case (ClickGenerate now)
  with assms show ?thesis
    by (auto simp: step_def job_dead_def spawn_def startProcessing_def nth_append
        split: if_splits option.splits)
next
  case ClickDownloadPLY
  with assms show ?thesis
    by (auto simp: step_def job_dead_def result_shown_def split: if_splits)
next
  case ClickDownloadSTL
  with assms show ?thesis
    by (auto simp: step_def job_dead_def result_shown_def split: if_splits)
next
  case (Settle m out)
  from assms(3) Settle obtain s' t' where
    m: "m < length (tasks S)" and
    r: "resume (tasks S ! m) out (ui S) = Some (s', acts, t')" and
    S': "S' = \<lparr>ui = s', tasks = (tasks S)[m := t']\<rparr>"
    by (auto simp: step_def split: if_splits option.splits)
  from assms(1) r have mn: "m \<noteq> n" by (auto simp: job_dead_def)
  from assms(2) Settle mn m have nj: "\<not> job_task (tasks S ! m)" by simp
  from assms(1) have none: "result3D (ui S) = None" by (simp add: job_dead_def)
  from resume_other_frame[OF r nj none] assms(1) mn show ?thesis
    by (simp add: S' job_dead_def)
qed

lemma dead_never_shows:
  assumes "job_dead n S" and "calm n es S" and "trace es S = Some r"
  shows "\<not> list_ex (\<lambda>e. result_shown (ui (fst e))) r"
  using assms
proof (induction es arbitrary: S r)
  case Nil
  then show ?case by simp
next
  case (Cons e es)
  from Cons.prems(3) obtain S1 a1 r1 where
    e: "step e S = Some (S1, a1)" and es: "trace es S1 = Some r1" and r: "r = (S1, a1) # r1"
    by (auto split: option.splits)
  from Cons.prems(2) e have nd: "\<not> disturbs n S e" and c: "calm n es S1" by simp_all
  from noise_keeps_dead[OF Cons.prems(1) nd e] have d: "job_dead n S1" .
  from Cons.IH[OF d c es] no_result_dead[OF d] show ?case
    by (simp add: r)
qed

lemma catch_finally_dead:
  "catch_finally t s = (s', acts, t') \<Longrightarrow> t' = Done \<and> result3D s' = result3D s"
  by (auto simp: catch_finally_def split: sum.splits thrown.splits)

lemma job_step:
  assumes "job_at n p S" and "step (Settle n out) S = Some (S', acts)"
  shows "(p < 7 \<and> job_at n (Suc p) S') \<or> job_dead n S' \<or> (p = 7 \<and> result_shown (ui S'))"
proof -
  from assms(1) have n: "n < length (tasks S)" and none: "result3D (ui S) = None"
    and ip: "isProcessing (ui S)" and ps: "processingStep (ui S) = min p 6"
    by (simp_all add: job_at_def)
  from assms(2) n obtain s' t' where
    r: "resume (tasks S ! n) out (ui S) = Some (s', acts, t')" and
    S': "S' = \<lparr>ui = s', tasks = (tasks S)[n := t']\<rparr>"
    by (auto simp: step_def split: option.splits)
  show ?thesis
  proof (cases "tasks S ! n")
    case (UploadPending img)
    with assms(1) have p: "p = 0" by (simp add: job_at_def)
    from r UploadPending obtain rr where out: "out = Replied rr"
      by (cases out) auto
    from r UploadPending out have au: "afterUpload img rr (ui S) = (s', acts, t')" by simp
    show ?thesis
    proof (cases "uploadImage_result rr")
      case (Inl t)
      with au catch_finally_dead[of t "ui S" s' acts t'] none n show ?thesis
        by (simp add: afterUpload_def S' job_dead_def)
    next
      case (Inr d)
      show ?thesis
      proof (cases "js_get d ''project_id''")
        case (Inl t)
        with au Inr catch_finally_dead[of t "ui S" s' acts t'] none n show ?thesis
          by (simp add: afterUpload_def S' job_dead_def)
      next
        case (Inr pid)
        with au \<open>uploadImage_result rr = Inr d\<close> none n ip p show ?thesis
          by (auto simp: afterUpload_def phaseLoop_def length_processingSteps S' job_at_def)
      qed
    qed
  next
    case (TimerPending k pid img)
    with assms(1) have p: "p = k" "1 \<le> k" "k \<le> 6" by (simp_all add: job_at_def)
    from r TimerPending have out: "out = Fired"
      by (cases out) auto
    from r TimerPending out have pl: "phaseLoop (k + 1) pid img (ui S) = (s', acts, t')" by simp
    show ?thesis
    proof (cases "k = 6")
      case True
      with pl p none n ip ps show ?thesis
        by (auto simp: phaseLoop_def length_processingSteps S' job_at_def)
    next
      case False
      with pl p none n ip ps show ?thesis
        by (auto simp: phaseLoop_def length_processingSteps S' job_at_def)
    qed
  next
    case (ProcessPending pid img)
    with assms(1) have p: "p = 7" by (simp add: job_at_def)
    from r ProcessPending obtain rr where out: "out = Replied rr"
      by (cases out) auto
    from r ProcessPending out have ap: "afterProcess pid img rr (ui S) = (s', acts, t')" by simp
    show ?thesis
    proof (cases "processProject_result rr")
      case (Inl t)
      with ap catch_finally_dead[of t "ui S" s' acts t'] none n show ?thesis
        by (simp add: afterProcess_def S' job_dead_def)
    next
      case (Inr d)
      show ?thesis
      proof (cases "buildResult pid img d")
        case (Inl t)
        with ap Inr catch_finally_dead[of t "ui S" s' acts t'] none n show ?thesis
          by (simp add: afterProcess_def S' job_dead_def)
      next
        case (Inr res)
        with ap \<open>processProject_result rr = Inr d\<close> p show ?thesis
          by (auto simp: afterProcess_def S' result_shown_def)
      qed
    qed
  next
    case (ReadPending f)
    with assms(1) show ?thesis by (simp add: job_at_def)
  next
    case (DownloadPending res fmt)
    with assms(1) show ?thesis by (simp add: job_at_def)
  next
    case Done
    with assms(1) show ?thesis by (simp add: job_at_def)
  qed
qed

lemma labels_from_phase:
  assumes "job_at n p S" and "calm n es S" and "trace es S = Some r"
    and "list_ex (\<lambda>e. result_shown (ui (fst e))) r"
  shows "remdups_adj (processingSteps ! min p 6 # shown_labels r) = drop (min p 6) processingSteps"
  using assms
proof (induction es arbitrary: S r p)
  case Nil
  then show ?case by simp
next
  case (Cons e es)
  from Cons.prems(3) obtain S1 a1 r1 where
    e: "step e S = Some (S1, a1)" and es: "trace es S1 = Some r1" and r: "r = (S1, a1) # r1"
    by (auto split: option.splits)
  from Cons.prems(2) e have nd: "\<not> disturbs n S e" and c: "calm n es S1" by simp_all
  have p7: "p \<le> 7"
    using Cons.prems(1) by (auto simp: job_at_def split: task.splits)
  consider (noise) "job_at n p S1" | (advance) "p < 7" "job_at n (Suc p) S1"
    | (dead) "job_dead n S1" | (finished) "p = 7" "result_shown (ui S1)"
  proof (cases "\<exists>out. e = Settle n out")
    case True
    then obtain out where "e = Settle n out" by blast
    with job_step[OF Cons.prems(1)] e that show ?thesis by blast
  next
    case False
    with noise_keeps_job[OF Cons.prems(1) nd e] that show ?thesis by blast
  qed
  then show ?case
  proof cases
    case noise
    from Cons.prems(4) no_result_at[OF noise] have ex: "list_ex (\<lambda>e. result_shown (ui (fst e))) r1"
      by (simp add: r)
    from Cons.IH[OF noise c es ex] label_at[OF noise] no_result_at[OF noise] show ?thesis
      by (simp add: r)
  next
    case advance
    from Cons.prems(4) no_result_at[OF advance(2)] have ex: "list_ex (\<lambda>e. result_shown (ui (fst e))) r1"
      by (simp add: r)
    note ih = Cons.IH[OF advance(2) c es ex]
    show ?thesis
    proof (cases "p = 6")
      case True
      with ih label_at[OF advance(2)] no_result_at[OF advance(2)] show ?thesis
        by (simp add: r)
    next
      case False
      with advance(1) have p: "p < 6" by simp
      then have m: "min p 6 = p" "min (Suc p) 6 = Suc p" by simp_all
      from p distinct_processingSteps have ne: "processingSteps ! p \<noteq> processingSteps ! Suc p"
        by (simp add: nth_eq_iff_index_eq length_processingSteps)
      from p have dr: "drop p processingSteps = processingSteps ! p # drop (Suc p) processingSteps"
        by (simp add: Cons_nth_drop_Suc length_processingSteps)
      have ih': "remdups_adj (processingSteps ! Suc p # shown_labels r1) = drop (Suc p) processingSteps"
        using ih by (simp only: m)
      have lab: "displayed_label (ui S1) = Some (processingSteps ! Suc p)"
        using label_at[OF advance(2)] by (simp only: m)
      from ih' lab no_result_at[OF advance(2)] ne dr show ?thesis
        by (simp add: r m(1))
    qed
  next
    case dead
    from Cons.prems(4) no_result_dead[OF dead] dead_never_shows[OF dead c es] show ?thesis
      by (simp add: r)
  next
    case finished
    then show ?thesis
      by (simp add: r processingSteps_def)
  qed
qed

text \<open>
  Claim C5, as stated: in every successful run of a job all seven labels are displayed
  in order before the result is shown. In the session with two jobs, the second job
  is never reset and ends with its own result (project id 8), but from its click to
  the first result shown the panel prints three labels only: the first job's handler
  moves the step on and then hides the panel and sets its own result.
\<close>

theorem stale_job_cuts_labels:
  "(case trace overlap_run initial_sys of
      None \<Rightarrow> False
    | Some r \<Rightarrow>
        ClickReset \<notin> set (drop 10 overlap_run)
        \<and> map_option res_projectId (result3D (ui (final initial_sys r))) = Some (JNum 8)
        \<and> labels_before_result (drop 10 r) =
            [''Analyzing image...'', ''Adding colors...'', ''Finalizing...'']
        \<and> labels_before_result (drop 10 r) \<noteq> processingSteps)"
  by code_simp

text \<open>
  Claim C5, amended. In every run that starts with the click on the generate button
  with a file selected, during which the reset button is not clicked and no handler
  of another job resumes, and in which a result comes to be shown: the labels printed
  up to the first result shown are the seven of \<open>processingSteps\<close>, in their order.
\<close>

theorem calm_job_shows_all_labels:
  assumes "generate_shown (ui S)" and "uploadedFile (ui S) = Some f"
    and "calm (length (tasks S)) (ClickGenerate now # es) S"
    and "trace (ClickGenerate now # es) S = Some r"
    and "list_ex (\<lambda>e. result_shown (ui (fst e))) r"
  shows "labels_before_result r = processingSteps"
proof -
  let ?n = "length (tasks S)"
  let ?S0 = "\<lparr>ui = (ui S)\<lparr>isProcessing := True, processingStep := 0, error := JStr ''''\<rparr>,
             tasks = tasks S @ [UploadPending (uploadedImage (ui S))]\<rparr>"
  note g = step_generate[OF assms(1,2), of now]
  from assms(4) g obtain r1 where es: "trace es ?S0 = Some r1" and r: "r = (?S0, snd (the (step (ClickGenerate now) S))) # r1"
    by (auto split: option.splits)
  from assms(3) g have c: "calm ?n es ?S0" by simp
  from assms(1) have at: "job_at ?n 0 ?S0"
    by (simp add: job_at_def generate_shown_def)
  from assms(5) no_result_at[OF at] have ex: "list_ex (\<lambda>e. result_shown (ui (fst e))) r1"
    by (simp add: r)
  from labels_from_phase[OF at c es ex] label_at[OF at] no_result_at[OF at] show ?thesis
    by (simp add: labels_before_result_def r)
qed

theorem calm_job_shows_all_labels_witness:
  "generate_shown (ui sample_selected) \<and> uploadedFile (ui sample_selected) = Some sample_file
   \<and> calm (length (tasks sample_selected)) (ClickGenerate 5 # calm_tail) sample_selected
   \<and> (case trace (ClickGenerate 5 # calm_tail) sample_selected of
         None \<Rightarrow> False
       | Some r \<Rightarrow> list_ex (\<lambda>e. result_shown (ui (fst e))) r
                   \<and> labels_before_result r = processingSteps)"
proof -
  have c: "calm (length (tasks sample_selected)) (ClickGenerate 5 # calm_tail) sample_selected"
    by code_simp
  have ex: "(case trace (ClickGenerate 5 # calm_tail) sample_selected of
         None \<Rightarrow> False | Some r \<Rightarrow> list_ex (\<lambda>e. result_shown (ui (fst e))) r)"
    by code_simp
  then obtain r where t: "trace (ClickGenerate 5 # calm_tail) sample_selected = Some r"
    and e: "list_ex (\<lambda>e. result_shown (ui (fst e))) r"
    by (auto split: option.splits)
  from calm_job_shows_all_labels[OF sample_facts(1,2) c t e] c t e sample_facts(1,2)
  show ?thesis by simp
qed

section \<open>The surfaced metrics\<close>

lemma sample_run_defined: "trace sample_run initial_sys \<noteq> None"
  by code_simp

lemma sample_completed_reached:
  "map_option (final initial_sys) (trace sample_run initial_sys) = Some sample_completed"
  by code_simp

lemma sample_downloading_reached:
  "map_option (final initial_sys) (trace (sample_run @ [ClickDownloadPLY]) initial_sys) =
     Some sample_downloading"
  by code_simp

text \<open>
  The metrics built from a response whose \<open>project\<close> is an object with the
  properties \<open>fs\<close>: each is the property's value or the fallback, as \<^verbatim>\<open>||\<close> decides.
\<close>

lemma buildResult_stats:
  "map_sum id res_stats (buildResult pid img (JObj [(''project'', JObj fs)])) =
     Inr \<lparr>vertices = js_or (case map_of fs ''vertices_count'' of None \<Rightarrow> JUndefined | Some v \<Rightarrow> v)
                        (JNum 15420),
          faces = js_or (case map_of fs ''faces_count'' of None \<Rightarrow> JUndefined | Some v \<Rightarrow> v)
                        (JNum 30840),
          processingTime =
            [Val (js_or (case map_of fs ''processing_time'' of None \<Rightarrow> JUndefined | Some v \<Rightarrow> v)
                        (JNum (23 / 10))), Lit ''s'']\<rparr>"
  by (simp add: buildResult_def)

text \<open>An absent metric gives the fallback, and a truthy one is passed on unchanged.\<close>

lemma metric_absent_fallback: "js_or JUndefined fallback = fallback"
  by (simp add: js_or_def)

lemma metric_truthy_kept: "js_truthy v \<Longrightarrow> js_or v fallback = v"
  by (simp add: js_or_def)

text \<open>
  Claim C2. Each surfaced metric is the server's value when the field is present and
  the fallback exactly when it is absent, a present 0 being surfaced as 0. The code
  does otherwise on a present 0: for the response whose project carries
  \<open>vertices_count\<close>, \<open>faces_count\<close> and \<open>processing_time\<close> all equal to 0, the three
  surfaced metrics are the fallbacks 15420, 30840 and 2.3s.
\<close>

theorem zero_metrics_replaced:
  "map_sum id res_stats (buildResult (JNum 7) (Some sample_url) zero_metrics_body) =
     Inr \<lparr>vertices = JNum 15420, faces = JNum 30840,
          processingTime = [Val (JNum (23 / 10)), Lit ''s'']\<rparr>"
  by (simp add: zero_metrics_body_def buildResult_def js_or_def)

section \<open>Downloads\<close>

text \<open>
  Claim C9. When the download request of a suspended \<open>handleDownload\<close> is rejected,
  whatever the server answered, the event emits nothing and changes the component
  state in the error message only: the message is set and shown, and the result with
  its project id, metrics and download links, and the project id cell, are as before.
\<close>

theorem download_failure_keeps_result:
  assumes "n < length (tasks S)" and "tasks S ! n = DownloadPending res format"
  shows "\<exists>S'. step (Settle n (Fetched (Rejected e))) S = Some (S', [])
           \<and> ui S' = (ui S)\<lparr>error := JStr ''Download failed. Please try again.''\<rparr>
           \<and> error_shown (ui S')
           \<and> result3D (ui S') = result3D (ui S)
           \<and> projectId (ui S') = projectId (ui S)"
  using assms
  by (simp add: step_def afterDownload_def downloadProject_result_def error_shown_def)

theorem download_failure_keeps_result_witness:
  "2 < length (tasks sample_downloading)
     \<and> tasks sample_downloading ! 2 = DownloadPending sample_result ''ply''
     \<and> result3D (ui sample_downloading) = Some sample_result
     \<and> (\<exists>S'. step (Settle 2 (Fetched (Rejected JUndefined))) sample_downloading = Some (S', [])
           \<and> ui S' = (ui sample_downloading)\<lparr>error := JStr ''Download failed. Please try again.''\<rparr>
           \<and> error_shown (ui S')
           \<and> result3D (ui S') = Some sample_result
           \<and> projectId (ui S') = JNum 7)"
  using download_failure_keeps_result[where S = sample_downloading and n = 2
      and res = sample_result and format = "''ply''" and e = JUndefined]
  by (simp add: sample_downloading_def sample_completed_def)

text \<open>
  Claim C10. With a result shown, the PLY button and the STL button send the same
  request, a GET of \<open>/api/projects/<id>/download\<close> for the result's project id, and
  leave the component state as it is; they differ in the format their suspended
  handler keeps. When the request resolves with a payload, the handler saves exactly
  that payload, under the name \<open>model_<id>.<format>\<close>: the format appears in the file
  name and nowhere else.
\<close>

theorem download_format_only_names_file:
  assumes "result3D (ui S) = Some res"
  shows "step ClickDownloadPLY S =
           Some (\<lparr>ui = ui S, tasks = tasks S @ [DownloadPending res ''ply'']\<rparr>,
                 [Http (GetBlob [Lit ''http://127.0.0.1:5000/api'', Lit ''/projects/'',
                                 Val (res_projectId res), Lit ''/download''])])
       \<and> step ClickDownloadSTL S =
           Some (\<lparr>ui = ui S, tasks = tasks S @ [DownloadPending res ''stl'']\<rparr>,
                 [Http (GetBlob [Lit ''http://127.0.0.1:5000/api'', Lit ''/projects/'',
                                 Val (res_projectId res), Lit ''/download''])])
       \<and> (\<forall>format b s. afterDownload res format (Resolved b) s =
             (s, [SaveLink b [Lit ''model_'', Val (res_projectId res), Lit ''.'', Val (JStr format)]],
              Done))"
  using assms
  by (simp add: step_def result_shown_def spawn_def handleDownload_def downloadProject_request_def
      BASE_URL_def afterDownload_def downloadProject_result_def)

theorem download_format_only_names_file_witness:
  "result3D (ui sample_completed) = Some sample_result
     \<and> map_option snd (step ClickDownloadPLY sample_completed) =
         Some [Http (GetBlob [Lit ''http://127.0.0.1:5000/api'', Lit ''/projects/'',
                              Val (JNum 7), Lit ''/download''])]
     \<and> map_option snd (step ClickDownloadSTL sample_completed) =
         Some [Http (GetBlob [Lit ''http://127.0.0.1:5000/api'', Lit ''/projects/'',
                              Val (JNum 7), Lit ''/download''])]
     \<and> afterDownload sample_result ''ply'' (Resolved ''mesh'') (ui sample_completed) =
         (ui sample_completed,
          [SaveLink ''mesh'' [Lit ''model_'', Val (JNum 7), Lit ''.'', Val (JStr ''ply'')]], Done)
     \<and> afterDownload sample_result ''stl'' (Resolved ''mesh'') (ui sample_completed) =
         (ui sample_completed,
          [SaveLink ''mesh'' [Lit ''model_'', Val (JNum 7), Lit ''.'', Val (JStr ''stl'')]], Done)"
proof -
  have r: "result3D (ui sample_completed) = Some sample_result"
    by (simp add: sample_completed_def)
  have p: "res_projectId sample_result = JNum 7"
    by (simp add: sample_result_def)
  from download_format_only_names_file[OF r] r p show ?thesis
    by simp
qed

section \<open>Only images are ever uploaded\<close>

lemma catch_finally_keeps_file:
  "catch_finally t s = (s', acts, t') \<Longrightarrow> acts = [] \<and> t' = Done \<and> uploadedFile s' = uploadedFile s"
  by (auto simp: catch_finally_def split: sum.splits thrown.splits)

lemma resume_only_images:
  assumes "resume t out s = Some (s', acts, t')"
    and "image_task t"
    and "case uploadedFile s of None \<Rightarrow> True | Some f \<Rightarrow> startsWith (ftype f) ''image/''"
  shows "(case uploadedFile s' of None \<Rightarrow> True | Some f \<Rightarrow> startsWith (ftype f) ''image/'')
         \<and> image_task t' \<and> concat (map uploads acts) = []"
proof (cases t)
  case (ReadPending f)
  with assms show ?thesis
    by (cases out) (auto simp: reader_onload_def)
next
  case (UploadPending img)
  with assms show ?thesis
    by (cases out)
      (auto simp: afterUpload_def phaseLoop_def processProject_request_def
        dest!: catch_finally_keeps_file split: sum.splits if_splits option.splits)
next
  case (TimerPending i p img)
  with assms show ?thesis
    by (cases out) (auto simp: phaseLoop_def processProject_request_def split: if_splits)
next
  case (ProcessPending p img)
  with assms show ?thesis
    by (cases out)
      (auto simp: afterProcess_def dest!: catch_finally_keeps_file split: sum.splits option.splits)
next
  case (DownloadPending res format)
  with assms show ?thesis
    by (cases out) (auto simp: afterDownload_def split: sum.splits)
next
  case Done
  with assms show ?thesis by simp
qed

lemma handleFileSelect_only_images:
  assumes "handleFileSelect fl s = (s', acts, t)"
  shows "uploadedFile s' = uploadedFile s \<and> image_task t \<and> concat (map uploads acts) = []"
  using assms by (auto simp: handleFileSelect_def split: option.splits if_splits)

lemma step_only_images:
  assumes "only_images S" and "step e S = Some (S', acts)"
  shows "only_images S' \<and> list_all (\<lambda>f. startsWith (ftype f) ''image/'') (concat (map uploads acts))"
proof (cases e)
  case DragOver
  with assms show ?thesis by (auto simp: step_def only_images_def split: if_splits)
next
  case DragLeave
  with assms show ?thesis by (auto simp: step_def only_images_def split: if_splits)
next
  case (Drop fl)
  obtain s' a t where h: "handleFileSelect fl ((ui S)\<lparr>dragOver := False\<rparr>) = (s', a, t)"
    by (cases "handleFileSelect fl ((ui S)\<lparr>dragOver := False\<rparr>)") auto
  from handleFileSelect_only_images[OF h] assms Drop h show ?thesis
    by (auto simp: step_def handleDrop_def spawn_def only_images_def list_all_iff split: if_splits)
next
  case (InputChange fl)
  obtain s' a t where h: "handleFileSelect fl (ui S) = (s', a, t)"
    by (cases "handleFileSelect fl (ui S)") auto
  from handleFileSelect_only_images[OF h] assms InputChange h show ?thesis
    by (auto simp: step_def handleFileInputChange_def spawn_def only_images_def list_all_iff
        split: if_splits)
next
  case ClickReset
  with assms show ?thesis
    by (auto simp: step_def only_images_def resetUpload_def split: if_splits)
next
  case (SelectObjectType v)
  with assms show ?thesis by (auto simp: step_def only_images_def split: if_splits)
next
  case (ClickGenerate now)
  with assms show ?thesis
    by (auto simp: step_def only_images_def spawn_def startProcessing_def uploadImage_request_def
        split: if_splits option.splits)
next
  case ClickDownloadPLY
  with assms show ?thesis
    by (auto simp: step_def only_images_def spawn_def handleDownload_def downloadProject_request_def
        split: if_splits option.splits)
next
  case ClickDownloadSTL
  with assms show ?thesis
    by (auto simp: step_def only_images_def spawn_def handleDownload_def downloadProject_request_def
        split: if_splits option.splits)
next
  case (Settle n out)
  from assms(2) Settle obtain s' t' where
    n: "n < length (tasks S)" and
    r: "resume (tasks S ! n) out (ui S) = Some (s', acts, t')" and
    S': "S' = \<lparr>ui = s', tasks = (tasks S)[n := t']\<rparr>"
    by (auto simp: step_def split: if_splits option.splits)
  from assms(1) n have it: "image_task (tasks S ! n)"
    by (simp add: only_images_def list_all_length)
  from assms(1) have uf: "case uploadedFile (ui S) of None \<Rightarrow> True
      | Some f \<Rightarrow> startsWith (ftype f) ''image/''"
    by (simp add: only_images_def)
  note k = resume_only_images[OF r it uf]
  have "list_all image_task ((tasks S)[n := t'])"
    using assms(1) k n by (auto simp: only_images_def list_all_length nth_list_update)
  with k show ?thesis
    by (auto simp: S' only_images_def list_all_iff)
qed

lemma trace_only_images:
  assumes "only_images S" and "trace es S = Some r"
  shows "list_all (\<lambda>f. startsWith (ftype f) ''image/'') (uploaded_files r)"
  using assms
proof (induction es arbitrary: S r)
  case Nil
  then show ?case by (simp add: uploaded_files_def emitted_def)
next
  case (Cons e es)
  from Cons.prems(2) obtain S1 a1 r1 where
    e: "step e S = Some (S1, a1)" and es: "trace es S1 = Some r1" and r: "r = (S1, a1) # r1"
    by (auto split: option.splits)
  from step_only_images[OF Cons.prems(1) e] Cons.IH[OF _ es] show ?case
    by (simp add: r uploaded_files_def emitted_def)
qed

lemma initial_only_images: "only_images initial_sys"
  by (simp add: only_images_def initial_sys_def initial_ui_def)

text \<open>
  Claim C4. For a file whose MIME type does not start with \<open>image/\<close>:
  \<open>handleFileSelect\<close> emits nothing (no request, no reader), sets the error message
  \<open>Please select a valid image file\<close>, which is then shown, and leaves the selected
  file as it was; so do the file input and the drop zone, which call it. And in no run
  of the page from its initial state is that file ever sent to the upload endpoint.
\<close>

theorem non_image_never_submitted:
  assumes "\<not> startsWith (ftype f) ''image/''"
  shows "handleFileSelect (Some f) s =
           (s\<lparr>error := JStr ''Please select a valid image file''\<rparr>, [], Done)
       \<and> error_shown (fst (handleFileSelect (Some f) s))
       \<and> uploadedFile (fst (handleFileSelect (Some f) s)) = uploadedFile s
       \<and> (\<forall>S. \<not> image_shown (ui S) \<longrightarrow>
             step (InputChange (Some f)) S =
               Some (S\<lparr>ui := (ui S)\<lparr>error := JStr ''Please select a valid image file''\<rparr>\<rparr>, [])
             \<and> step (Drop (Some f)) S =
               Some (S\<lparr>ui := (ui S)\<lparr>dragOver := False,
                                      error := JStr ''Please select a valid image file''\<rparr>\<rparr>, []))
       \<and> (\<forall>es r. trace es initial_sys = Some r \<longrightarrow> f \<notin> set (uploaded_files r))"
proof -
  have "f \<notin> set (uploaded_files r)" if "trace es initial_sys = Some r" for es r
    using trace_only_images[OF initial_only_images that] assms
    by (auto simp: list_all_iff)
  with assms show ?thesis
    by (simp add: handleFileSelect_def error_shown_def step_def spawn_def handleDrop_def
        handleFileInputChange_def)
qed

theorem non_image_never_submitted_witness:
  "\<not> startsWith (ftype pdf_file) ''image/''
     \<and> handleFileSelect (Some pdf_file) initial_ui =
           (initial_ui\<lparr>error := JStr ''Please select a valid image file''\<rparr>, [], Done)
     \<and> error_shown (fst (handleFileSelect (Some pdf_file) initial_ui))
     \<and> step (InputChange (Some pdf_file)) initial_sys =
           Some (initial_sys\<lparr>ui := initial_ui\<lparr>error := JStr ''Please select a valid image file''\<rparr>\<rparr>, [])
     \<and> trace [InputChange (Some pdf_file), ClickGenerate 5] initial_sys = None
     \<and> (\<exists>r. trace sample_run initial_sys = Some r \<and> pdf_file \<notin> set (uploaded_files r))"
proof -
  have np: "\<not> startsWith (ftype pdf_file) ''image/''"
    by (simp add: pdf_file_def startsWith_def)
  have run: "\<exists>r. trace sample_run initial_sys = Some r"
    using sample_run_defined by (cases "trace sample_run initial_sys") auto
  have ns: "\<not> image_shown (ui initial_sys)"
    by (simp add: initial_sys_def initial_ui_def image_shown_def)
  have none: "trace [InputChange (Some pdf_file), ClickGenerate 5] initial_sys = None"
    by (simp add: step_def spawn_def handleFileInputChange_def handleFileSelect_def np
        initial_sys_def initial_ui_def image_shown_def generate_shown_def)
  from non_image_never_submitted[OF np, of initial_ui] np run ns none show ?thesis
    by (auto simp: initial_sys_def)
qed

section \<open>The viewer: framing on load\<close>

lemma model_controls_update [simp]: "model (controls_update update v) = model v"
  by (simp add: controls_update_def split: prod.splits)

lemma wireframeMode_controls_update [simp]:
  "wireframeMode (controls_update update v) = wireframeMode v"
  by (simp add: controls_update_def split: prod.splits)

text \<open>\<open>maxSize_of\<close> is the largest of the three dimensions.\<close>

lemma maxSize_of_largest:
  "vx sz \<le> maxSize_of sz \<and> vy sz \<le> maxSize_of sz \<and> vz sz \<le> maxSize_of sz
   \<and> (maxSize_of sz = vx sz \<or> maxSize_of sz = vy sz \<or> maxSize_of sz = vz sz)"
  by (auto simp: maxSize_of_def max_def)

text \<open>
  What the load callback leaves as the model: the position less the centre of the box
  computed before anything is moved and, when the largest dimension \<open>m\<close> of that box
  exceeds 50, the scale \<open>50 / m\<close> on all three axes, the scale being untouched
  otherwise.
\<close>

lemma onLoad_model:
  "model (onLoad setFromObject update gltf_scene v) =
     Some (if 50 < maxSize_of (getSize (setFromObject gltf_scene))
           then gltf_scene
                  \<lparr>position := vsub (position gltf_scene) (getCenter (setFromObject gltf_scene)),
                   scale := Vector3 (50 / maxSize_of (getSize (setFromObject gltf_scene)))
                                    (50 / maxSize_of (getSize (setFromObject gltf_scene)))
                                    (50 / maxSize_of (getSize (setFromObject gltf_scene)))\<rparr>
           else gltf_scene
                  \<lparr>position := vsub (position gltf_scene) (getCenter (setFromObject gltf_scene))\<rparr>)"
  by (simp add: onLoad_def Let_def setScalar_def)

text \<open>
  Claim C6. On load the bounding box's centre is brought to the origin, and a model
  whose largest dimension \<open>m\<close> exceeds 50 is scaled by \<open>50 / m\<close> on every axis. The
  script does the second and misses the first whenever it scales: it moves the model
  by the centre of the unscaled box and then sets the scale, which three.js applies
  about the model's own origin. For the model 60 by 120 by 30 with a corner at its
  origin, the loaded model has position \<open>(-30, -60, -15)\<close> and scale \<open>50 / 120\<close> on
  every axis, its bounding box is \<open>(-30, -60, -15) .. (-5, -10, -5/2)\<close>, and the
  centre of that box is \<open>(-35/2, -35, -35/4)\<close>, not the origin.
\<close>

theorem loaded_model_off_centre:
  "(case model (onLoad (world_box tall_local) still sample_scene (init ())) of
      None \<Rightarrow> False
    | Some loaded \<Rightarrow>
        position loaded = Vector3 (- 30) (- 60) (- 15)
        \<and> scale loaded = Vector3 (50 / 120) (50 / 120) (50 / 120)
        \<and> world_box tall_local loaded =
            \<lparr>bmin = Vector3 (- 30) (- 60) (- 15), bmax = Vector3 (- 5) (- 10) (- 5 / 2)\<rparr>
        \<and> getCenter (world_box tall_local loaded) = Vector3 (- 35 / 2) (- 35) (- 35 / 4))"
  by (simp add: onLoad_def Let_def world_box_def tall_local_def sample_scene_def getCenter_def
      getSize_def isEmpty_def maxSize_of_def vsub_def vadd_def multiplyScalar_def setScalar_def
      init_def)

section \<open>The viewer: wireframe\<close>

lemma set_wireframe_simps:
  "set_wireframe w None = None"
  "set_wireframe w (Some old) = Some w"
  by (simp_all add: set_wireframe_def)

lemma flags_traverse:
  "wireframe_flags (traverse (set_wireframe w) g) = map (\<lambda>old. w) (wireframe_flags g)"
proof (induction g)
  case (Object3D mesh children)
  have "concat (map (wireframe_flags \<circ> traverse (set_wireframe w)) children) =
        concat (map (map (\<lambda>old. w) \<circ> wireframe_flags) children)"
    using Object3D.IH by (induction children) simp_all
  then show ?case
    by (cases mesh) (simp_all add: set_wireframe_simps map_concat)
qed

lemma traverse_same:
  "list_all (\<lambda>old. old = w) (wireframe_flags g) \<Longrightarrow> traverse (set_wireframe w) g = g"
proof (induction g)
  case (Object3D mesh children)
  have "map (traverse (set_wireframe w)) children = children"
    using Object3D by (auto simp: list_all_iff intro!: map_idI)
  with Object3D.prems show ?case
    by (cases mesh) (simp_all add: set_wireframe_simps)
qed

lemma traverse_traverse:
  "traverse (set_wireframe w) (traverse (set_wireframe w') g) = traverse (set_wireframe w) g"
proof (induction g)
  case (Object3D mesh children)
  then show ?case
    by (cases mesh) (simp_all add: set_wireframe_simps)
qed

lemma toggleWireframe_uniform:
  "list_all (\<lambda>w. w = wireframeMode (toggleWireframe v)) (mesh_flags (toggleWireframe v))"
  by (cases "model v") (simp_all add: toggleWireframe_def mesh_flags_def flags_traverse list_all_iff)

lemma toggleWireframe_flags:
  "mesh_flags (toggleWireframe v) = map (\<lambda>old. \<not> wireframeMode v) (mesh_flags v)"
  by (cases "model v") (simp_all add: toggleWireframe_def mesh_flags_def flags_traverse)

lemma toggle_twice_agree:
  assumes "flags_agree v"
  shows "toggleWireframe (toggleWireframe v) = v"
proof (cases "model v")
  case None
  then show ?thesis by (simp add: toggleWireframe_def)
next
  case (Some m)
  from assms Some have "traverse (set_wireframe (wireframeMode v)) (graph m) = graph m"
    by (intro traverse_same) (simp add: flags_agree_def mesh_flags_def)
  with Some show ?thesis
    by (simp add: toggleWireframe_def traverse_traverse)
qed

lemma flags_agree_step:
  "flags_agree v \<Longrightarrow> flags_agree (viewer_step setFromObject update e v)"
proof (cases e)
  case ResetView
  assume "flags_agree v"
  then show ?thesis
    by (cases "model v")
      (simp_all add: ResetView resetView_def flags_agree_def mesh_flags_def Let_def)
next
  case ToggleWireframe
  show ?thesis
    using toggleWireframe_uniform[of v] by (simp add: ToggleWireframe flags_agree_def)
next
  case ToggleAutoRotate
  assume "flags_agree v"
  then show ?thesis
    by (simp add: ToggleAutoRotate toggleAutoRotate_def flags_agree_def mesh_flags_def)
next
  case Frame
  assume "flags_agree v"
  then show ?thesis
    by (cases "model v")
      (simp_all add: Frame animate_def flags_agree_def mesh_flags_def)
qed

lemma flags_agree_run:
  "flags_agree v \<Longrightarrow> flags_agree (viewer_run setFromObject update es v)"
  unfolding viewer_run_def
  by (induction es arbitrary: v) (simp_all add: flags_agree_step)

lemma unloaded_step:
  "model v = None \<and> \<not> wireframeMode v \<Longrightarrow>
   model (viewer_step setFromObject update e v) = None
   \<and> \<not> wireframeMode (viewer_step setFromObject update e v)"
  by (cases e) (simp_all add: resetView_def toggleWireframe_def toggleAutoRotate_def animate_def)

lemma unloaded_run:
  "model v = None \<and> \<not> wireframeMode v \<Longrightarrow>
   model (viewer_run setFromObject update es v) = None
   \<and> \<not> wireframeMode (viewer_run setFromObject update es v)"
  unfolding viewer_run_def
proof (induction es arbitrary: v)
  case Nil
  then show ?case by simp
next
  case (Cons e es)
  from Cons.IH[OF unloaded_step[OF Cons.prems]] show ?case by simp
qed

lemma loaded_step:
  "model v \<noteq> None \<Longrightarrow> model (viewer_step setFromObject update e v) \<noteq> None"
  by (cases e)
    (auto simp: resetView_def toggleWireframe_def toggleAutoRotate_def animate_def Let_def)

lemma loaded_run:
  "model v \<noteq> None \<Longrightarrow> model (viewer_run setFromObject update es v) \<noteq> None"
  unfolding viewer_run_def
proof (induction es arbitrary: v)
  case Nil
  then show ?case by simp
next
  case (Cons e es)
  from Cons.IH[OF loaded_step[OF Cons.prems]] show ?case by simp
qed

lemma flags_agree_onLoad:
  "loader_materials gltf_scene \<Longrightarrow> \<not> wireframeMode v \<Longrightarrow>
   flags_agree (onLoad setFromObject update gltf_scene v)"
  by (simp add: flags_agree_def mesh_flags_def onLoad_def Let_def loader_materials_def)

text \<open>
  Claim C7. Let \<open>v\<close> be any state of the viewer with its model loaded: the page is
  initialised, any buttons are pressed and frames drawn, the loader delivers a scene
  whose materials are as the loader creates them, and again any buttons are pressed
  and frames drawn. Then two calls of \<open>toggleWireframe\<close> in succession give back
  \<open>v\<close>, so every mesh, nested or not, has the flag it had; and one call flips
  \<open>wireframeMode\<close> and sets the flag of every mesh to the flipped value.
\<close>

theorem toggleWireframe_twice_restores:
  assumes "loader_materials gltf_scene"
    and "v = viewer_run setFromObject update after
               (onLoad setFromObject update gltf_scene
                  (viewer_run setFromObject update before (init c)))"
  shows "toggleWireframe (toggleWireframe v) = v
       \<and> wireframeMode (toggleWireframe v) = (\<not> wireframeMode v)
       \<and> mesh_flags (toggleWireframe v) = map (\<lambda>old. \<not> wireframeMode v) (mesh_flags v)"
proof -
  let ?v0 = "viewer_run setFromObject update before (init c)"
  have "model (init c) = None \<and> \<not> wireframeMode (init c)"
    by (simp add: init_def)
  then have v0: "\<not> wireframeMode ?v0"
    using unloaded_run by blast
  have agree: "flags_agree v"
    unfolding assms(2) by (intro flags_agree_run flags_agree_onLoad assms(1) v0)
  have "model (onLoad setFromObject update gltf_scene ?v0) \<noteq> None"
    by (simp add: onLoad_def Let_def)
  then have "model v \<noteq> None"
    unfolding assms(2) by (rule loaded_run)
  then have "wireframeMode (toggleWireframe v) = (\<not> wireframeMode v)"
    by (auto simp: toggleWireframe_def)
  with toggle_twice_agree[OF agree] toggleWireframe_flags show ?thesis
    by simp
qed

theorem toggleWireframe_twice_restores_witness:
  "loader_materials sample_scene
   \<and> mesh_flags (toggleWireframe (onLoad (\<lambda>m. big_box) still sample_scene (init ()))) = [True, True]
   \<and> toggleWireframe (toggleWireframe
        (viewer_run (\<lambda>m. big_box) still [ToggleWireframe, Frame]
           (onLoad (\<lambda>m. big_box) still sample_scene
              (viewer_run (\<lambda>m. big_box) still [ToggleWireframe] (init ()))))) =
      viewer_run (\<lambda>m. big_box) still [ToggleWireframe, Frame]
        (onLoad (\<lambda>m. big_box) still sample_scene
           (viewer_run (\<lambda>m. big_box) still [ToggleWireframe] (init ())))"
proof -
  have lm: "loader_materials sample_scene"
    by (simp add: loader_materials_def sample_scene_def)
  have fl: "mesh_flags (toggleWireframe (onLoad (\<lambda>m. big_box) still sample_scene (init ()))) =
      [True, True]"
    by (simp add: mesh_flags_def toggleWireframe_def onLoad_def Let_def init_def sample_scene_def
        set_wireframe_simps)
  from toggleWireframe_twice_restores[OF lm refl, where setFromObject = "\<lambda>m. big_box"
      and update = still and after = "[ToggleWireframe, Frame]" and before = "[ToggleWireframe]"
      and c = "()"]
    lm fl
  show ?thesis by simp
qed

section \<open>The viewer: resetting the view\<close>

text \<open>
  Claim C8, as stated: on a loaded, unchanged model two consecutive calls of
  \<open>resetView\<close> give the same camera position and the same target. With a pan of one
  unit pending in the damped controls, the model is the same after the call as
  before, yet the first call leaves the camera at \<open>(1601/20, 40, 80)\<close> and the target
  at \<open>(1/20, 0, 0)\<close>, and the second the camera at \<open>(32019/400, 40, 80)\<close> and the
  target at \<open>(19/400, 0, 0)\<close>.
\<close>

theorem resetView_differs_while_damping:
  "model (resetView (world_box small_box) damped_pan loaded_panned) = model loaded_panned
   \<and> camera_position (resetView (world_box small_box) damped_pan loaded_panned) =
       Vector3 (1601 / 20) 40 80
   \<and> camera_position (resetView (world_box small_box) damped_pan
                        (resetView (world_box small_box) damped_pan loaded_panned)) =
       Vector3 (32019 / 400) 40 80
   \<and> controls_target (resetView (world_box small_box) damped_pan loaded_panned) =
       Vector3 (1 / 20) 0 0
   \<and> controls_target (resetView (world_box small_box) damped_pan
                        (resetView (world_box small_box) damped_pan loaded_panned)) =
       Vector3 (19 / 400) 0 0
   \<and> resetView (world_box small_box) damped_pan
        (resetView (world_box small_box) damped_pan loaded_panned) \<noteq>
      resetView (world_box small_box) damped_pan loaded_panned"
  by code_simp

text \<open>
  Claim C8, amended. When the orbit controls are at rest, that is when nothing damped
  is pending in them, a second call of \<open>resetView\<close> right after a first changes
  nothing: the camera position, the controls' target and all the rest of the state
  are what the first call left.
\<close>

theorem resetView_idempotent:
  assumes "at_rest update (controls_pending v)"
  shows "resetView setFromObject update (resetView setFromObject update v) =
         resetView setFromObject update v"
proof (cases "model v")
  case None
  then show ?thesis by (simp add: resetView_def)
next
  case (Some m)
  let ?d = "maxSize_of (getSize (setFromObject m)) * 2"
  let ?p = "Vector3 ?d (?d * (1 / 2)) ?d"
  let ?t = "getCenter (setFromObject m)"
  obtain c' p' t' where u: "update (controls_pending v) ?p ?t = (c', p', t')"
    by (cases "update (controls_pending v) ?p ?t") auto
  from assms have "fst (update (controls_pending v) ?p ?t) = controls_pending v"
    by (simp add: at_rest_def)
  with u have c': "c' = controls_pending v" by simp
  have r1: "resetView setFromObject update v =
      v\<lparr>camera_position := p', controls_target := t', controls_pending := c'\<rparr>"
    using Some u by (simp add: resetView_def Let_def controls_update_def)
  show ?thesis
    unfolding r1
    using Some u c' by (simp add: resetView_def Let_def controls_update_def)
qed

text \<open>
  The loaded sample, its controls damped with nothing pending: they are at rest there,
  and not with a pan pending; the view is reset to the camera at \<open>(80, 40, 80)\<close>
  looking at the origin, and a second reset leaves it so.
\<close>

theorem resetView_idempotent_witness:
  "at_rest damped_pan (controls_pending loaded_small)
   \<and> \<not> at_rest damped_pan (Vector3 1 0 0)
   \<and> camera_position (resetView (world_box small_box) damped_pan loaded_small) = Vector3 80 40 80
   \<and> controls_target (resetView (world_box small_box) damped_pan loaded_small) = Vector3 0 0 0
   \<and> resetView (world_box small_box) damped_pan
        (resetView (world_box small_box) damped_pan loaded_small) =
      resetView (world_box small_box) damped_pan loaded_small"
proof -
  have pend: "controls_pending loaded_small = Vector3 0 0 0"
    by code_simp
  have rest: "at_rest damped_pan (controls_pending loaded_small)"
    unfolding pend by (simp add: at_rest_def damped_pan_def multiplyScalar_def)
  have moving: "\<not> at_rest damped_pan (Vector3 1 0 0)"
    by (simp add: at_rest_def damped_pan_def multiplyScalar_def)
  have pose: "camera_position (resetView (world_box small_box) damped_pan loaded_small) =
        Vector3 80 40 80"
     "controls_target (resetView (world_box small_box) damped_pan loaded_small) = Vector3 0 0 0"
    by code_simp+
  from resetView_idempotent[OF rest, where setFromObject = "world_box small_box"]
    rest moving pose
  show ?thesis by simp
qed

end
